(* ===== verification/Prelude.thy ===== *)
theory Prelude
  imports Complex_Main "HOL-Library.Word"
begin

text \<open>
  Shared vocabulary of the model of \<^verbatim>\<open>src/src/lib/actions/tripPlan.ts\<close>.
  A JavaScript string is a sequence of UTF-16 code units, so it is modelled as a list of
  16-bit words; \<open>js\<close> turns an ASCII literal of the theory into such a string.
  Errors of the source are values of sum types (\<open>Inl\<close> the error).  The collection
  \<open>js_simps\<close> gathers the evaluation rules of the JavaScript primitives that the
  component theories use to compute concrete runs.
\<close>

named_theorems js_simps "evaluation rules of the JavaScript primitives of the model"

type_synonym code_unit = "16 word"
type_synonym js_string = "code_unit list"

definition js :: "string \<Rightarrow> js_string" where
  "js s = map (\<lambda>c. of_nat (of_char c)) s"

lemma js_Nil [simp, js_simps]: "js [] = []"
  by (simp add: js_def)

lemma js_Cons [simp, js_simps]: "js (c # s) = of_nat (of_char c) # js s"
  by (simp add: js_def)

lemma js_append [simp]: "js (s @ t) = js s @ js t"
  by (simp add: js_def)

lemma length_js [simp]: "length (js s) = length s"
  by (simp add: js_def)

subsection \<open>Sums as results of fallible code\<close>

text \<open>Sequencing of fallible steps: the first \<open>Inl\<close> is propagated, as a thrown error is.\<close>

definition bind_sum :: "'e + 'a \<Rightarrow> ('a \<Rightarrow> 'e + 'b) \<Rightarrow> 'e + 'b" where
  "bind_sum r f = (case r of Inl e \<Rightarrow> Inl e | Inr a \<Rightarrow> f a)"

lemma bind_sum_Inl [simp]: "bind_sum (Inl e) f = Inl e"
  by (simp add: bind_sum_def)

lemma bind_sum_Inr [simp]: "bind_sum (Inr a) f = f a"
  by (simp add: bind_sum_def)

lemma bind_sum_eq_Inr: "bind_sum r f = Inr b \<longleftrightarrow> (\<exists>a. r = Inr a \<and> f a = Inr b)"
  by (cases r) auto

end
