(* ===== verification/Days.thy ===== *)
theory Days
  imports Prelude
begin

text \<open>
  The trip length of \<^verbatim>\<open>getNumberOfDays\<close> (tripPlan.ts, lines 10--15).  A \<^verbatim>\<open>Date\<close>
  is read through \<^verbatim>\<open>getTime()\<close>, an integral number of milliseconds since the epoch,
  modelled as an \<open>int\<close>.  The quotient of the difference by the length of a day is
  taken exactly (a rational) and rounded as \<^verbatim>\<open>Math.round\<close> does: to the nearest
  integer, halves upwards.  The lemmas give the integer closed form of the routine, its
  exact characterisation by a half-open interval, monotonicity, and the count for swapped dates.
\<close>

type_synonym js_date = int

definition oneDayInMilliseconds :: int where
  "oneDayInMilliseconds = 24 * 60 * 60 * 1000"

definition js_math_round :: "rat \<Rightarrow> int" where
  "js_math_round x = \<lfloor>x + 1 / 2\<rfloor>"

definition getNumberOfDays :: "js_date \<Rightarrow> js_date \<Rightarrow> int" where
  "getNumberOfDays startDate endDate =
     (let differenceInTime = endDate - startDate;
          differenceInDays =
            js_math_round (of_int differenceInTime / of_int oneDayInMilliseconds)
      in differenceInDays)"

lemma oneDayInMilliseconds_val [simp]: "oneDayInMilliseconds = 86400000"
  by (simp add: oneDayInMilliseconds_def)

subsection \<open>Rounding a quotient of integers\<close>

lemma js_math_round_quotient:
  assumes "0 < b"
  shows "js_math_round (of_int a / of_int b) = (2 * a + b) div (2 * b)"
proof -
  have "of_int a / of_int b + 1 / 2 = (of_int (2 * a + b) / of_int (2 * b) :: rat)"
    using assms by (simp add: field_simps)
  moreover have "\<lfloor>of_int (2 * a + b) / of_int (2 * b) :: rat\<rfloor> = (2 * a + b) div (2 * b)"
    by (rule floor_divide_of_int_eq)
  ultimately show ?thesis
    by (simp only: js_math_round_def)
qed

text \<open>The routine as one integer division: \<open>round(d / D) = (2d + D) div 2D\<close>.\<close>

lemma getNumberOfDays_closed_form:
  "getNumberOfDays startDate endDate = (2 * (endDate - startDate) + 86400000) div 172800000"
  unfolding getNumberOfDays_def Let_def oneDayInMilliseconds_val
  by (subst js_math_round_quotient) simp_all

text \<open>The rounding condition of \<^verbatim>\<open>Math.round\<close>, moved from the rationals to the integers.\<close>

lemma round_day_bounds_int:
  fixes d k :: int
  shows "(of_int k \<le> of_int d / (86400000::rat) + 1 / 2 \<and>
          of_int d / (86400000::rat) + 1 / 2 < of_int k + 1)
     \<longleftrightarrow> (2 * k - 1) * 86400000 \<le> 2 * d \<and> 2 * d < (2 * k + 1) * 86400000"
proof -
  have "(of_int k \<le> of_int d / (86400000::rat) + 1 / 2) \<longleftrightarrow>
        (of_int ((2 * k - 1) * 86400000) \<le> (of_int (2 * d) :: rat))"
    by (simp add: field_simps; linarith)
  moreover have "(of_int d / (86400000::rat) + 1 / 2 < of_int k + 1) \<longleftrightarrow>
        ((of_int (2 * d) :: rat) < of_int ((2 * k + 1) * 86400000))"
    by (simp add: field_simps; linarith)
  ultimately show ?thesis
    by (simp only: of_int_le_iff of_int_less_iff)
qed

lemma getNumberOfDays_unfold_bounds:
  "getNumberOfDays startDate endDate = k \<longleftrightarrow>
     (of_int k \<le> of_int (endDate - startDate) / (86400000::rat) + 1 / 2 \<and>
      of_int (endDate - startDate) / (86400000::rat) + 1 / 2 < of_int k + 1)"
  unfolding getNumberOfDays_def Let_def js_math_round_def floor_eq_iff oneDayInMilliseconds_val
  by (simp only: of_int_numeral)

lemma getNumberOfDays_eqI:
  assumes "(2 * k - 1) * 86400000 \<le> 2 * (endDate - startDate)"
    and "2 * (endDate - startDate) < (2 * k + 1) * 86400000"
  shows "getNumberOfDays startDate endDate = k"
  using assms by (simp only: getNumberOfDays_unfold_bounds round_day_bounds_int)

text \<open>\<^verbatim>\<open>Math.round\<close> is not odd: it rounds halves upwards on both sides of zero.\<close>

lemma round_half_odd:
  fixes d :: int
  shows "(- 2 * d + 86400000) div 172800000 =
     (if d mod 86400000 = 43200000 then 1 else 0) - (2 * d + 86400000) div 172800000"
proof -
  define q r where "q = d div 86400000" and "r = d mod 86400000"
  have d: "d = q * 86400000 + r" and r: "0 \<le> r" "r < 86400000"
    by (simp_all add: q_def r_def)
  have a: "(2 * d + 86400000) div 172800000 = q + (if 43200000 \<le> r then 1 else 0)"
    by (rule int_div_pos_eq [where r = "2 * d + 86400000 - 172800000 * (q + (if 43200000 \<le> r then 1 else 0))"])
       (use d r in \<open>auto\<close>)
  have b: "(- 2 * d + 86400000) div 172800000 = - q - (if 43200000 < r then 1 else 0)"
    by (rule int_div_pos_eq [where r = "- 2 * d + 86400000 - 172800000 * (- q - (if 43200000 < r then 1 else 0))"])
       (use d r in \<open>auto\<close>)
  show ?thesis using a b r by (simp add: r_def [symmetric])
qed

subsection \<open>Properties of the day count\<close>

text \<open>
  C7: \<^verbatim>\<open>getNumberOfDays\<close> returns \<open>k\<close> exactly when the difference of the two
  dates lies in the half-open interval \<open>[k - 1/2, k + 1/2)\<close> of days: it rounds to
  the nearest whole day, halves upwards.
\<close>

theorem getNumberOfDays_iff:
  "getNumberOfDays startDate endDate = k \<longleftrightarrow>
     (2 * k - 1) * 86400000 \<le> 2 * (endDate - startDate) \<and>
     2 * (endDate - startDate) < (2 * k + 1) * 86400000"
  by (simp only: getNumberOfDays_unfold_bounds round_day_bounds_int)

text \<open>
  C6: a difference of exactly \<open>k\<close> days gives \<open>k\<close>: the count is the number of
  nights between the dates, not the inclusive number of calendar days (2024-01-01 to
  2024-01-05, the example of the specification, gives 4).
\<close>

theorem getNumberOfDays_exact:
  "getNumberOfDays startDate (startDate + k * 86400000) = k"
  by (simp add: getNumberOfDays_closed_form)

text \<open>
  C24: dates taken at local midnight on both sides of a daylight-saving change differ by
  a whole number of days plus or minus one hour; the count is still that number of days.
\<close>

theorem getNumberOfDays_dst:
  assumes "\<bar>endDate - startDate - k * 86400000\<bar> \<le> 3600000"
  shows "getNumberOfDays startDate endDate = k"
  using assms by (intro getNumberOfDays_eqI) auto

theorem getNumberOfDays_dst_witness:
  "\<bar>(1710212400000::int) - 1709697600000 - 6 * 86400000\<bar> \<le> 3600000 \<and>
   getNumberOfDays 1709697600000 1710212400000 = 6"
  using getNumberOfDays_dst [of 1710212400000 1709697600000 6] by simp

text \<open>C25: a later end date never gives a smaller count.\<close>

theorem getNumberOfDays_mono:
  assumes "endDate \<le> endDate'"
  shows "getNumberOfDays startDate endDate \<le> getNumberOfDays startDate endDate'"
  using assms by (simp add: getNumberOfDays_closed_form zdiv_mono1)

theorem getNumberOfDays_mono_witness:
  "(1704412800000::int) \<le> 1704499200000 \<and>
   getNumberOfDays 1704067200000 1704412800000 \<le> getNumberOfDays 1704067200000 1704499200000"
  using getNumberOfDays_mono [of 1704412800000 1704499200000 1704067200000] by simp

text \<open>
  C26: swapping the two dates negates the count, except at an odd number of half days,
  where rounding halves upwards gives one more; and an end date more than half a day before
  the start date gives a negative count, which is sent to the provider as the trip length.
\<close>

theorem getNumberOfDays_reversed:
  "getNumberOfDays endDate startDate =
     (if (endDate - startDate) mod 86400000 = 43200000 then 1 else 0) - getNumberOfDays startDate endDate \<and>
   (endDate + 43200000 < startDate \<longrightarrow> getNumberOfDays startDate endDate < 0)"
proof
  show "getNumberOfDays endDate startDate =
     (if (endDate - startDate) mod 86400000 = 43200000 then 1 else 0) - getNumberOfDays startDate endDate"
    using round_half_odd [of "endDate - startDate"] by (simp add: getNumberOfDays_closed_form)
  show "endDate + 43200000 < startDate \<longrightarrow> getNumberOfDays startDate endDate < 0"
    unfolding getNumberOfDays_closed_form by (intro impI div_neg_pos_less0) simp_all
qed

theorem getNumberOfDays_reversed_witness:
  "getNumberOfDays 1704412800000 1704067200000 = -4 \<and> getNumberOfDays 1704067200000 1704412800000 = 4"
  using getNumberOfDays_reversed [of 1704067200000 1704412800000]
  by (simp add: getNumberOfDays_closed_form)

end
