(* ===== verification/Json.thy ===== *)
theory Json
  imports Prelude
begin

text \<open>
  JSON values and \<^verbatim>\<open>JSON.parse\<close>, the JavaScript built-in that \<^verbatim>\<open>fetchData\<close>
  (tripPlan.ts, line 33) applies to the model's answer.  It is not code of the
  repository, so it is modelled from ECMA-404 and ECMA-262 (\<^verbatim>\<open>JSON.parse\<close>):
  whitespace is space, tab, line feed and carriage return; strings may not hold control
  characters and know the escapes \<^verbatim>\<open>\" \\ \/ \b \f \n \r \t \uXXXX\<close>; numbers follow
  the grammar \<^verbatim>\<open>-?(0|[1-9][0-9]*)(.[0-9]+)?([eE][+-]?[0-9]+)?\<close>.  A number is kept as
  the exact rational it denotes (the engine rounds it to a double).  An object keeps its
  members in source order, duplicates included; a property read takes the last member
  of that name, as the engine's object does.  The parser is recursive descent with
  fuel; \<open>json_parse\<close> gives it enough, which the lemmas at the end prove.
\<close>

datatype json =
    JNull
  | JBool bool
  | JNum rat
  | JStr js_string
  | JArr "json list"
  | JObj "(js_string \<times> json) list"

text \<open>\<^verbatim>\<open>typeof v === "object" && v !== null\<close>: objects and arrays.\<close>

fun is_js_object :: "json \<Rightarrow> bool" where
  "is_js_object (JObj ms) = True"
| "is_js_object (JArr vs) = True"
| "is_js_object _ = False"

text \<open>Reading a property of a parsed object: the last member of that name, or undefined.\<close>

fun lookup_member :: "(js_string \<times> json) list \<Rightarrow> js_string \<Rightarrow> json option" where
  "lookup_member [] k = None"
| "lookup_member ((k', v) # ms) k =
     (case lookup_member ms k of None \<Rightarrow> if k' = k then Some v else None | Some w \<Rightarrow> Some w)"

subsection \<open>Lexical classes\<close>

definition is_json_ws :: "code_unit \<Rightarrow> bool" where
  "is_json_ws c \<longleftrightarrow> c = 0x20 \<or> c = 0x09 \<or> c = 0x0A \<or> c = 0x0D"

definition is_digit :: "code_unit \<Rightarrow> bool" where
  "is_digit c \<longleftrightarrow> 0x30 \<le> c \<and> c \<le> 0x39"

definition digit_val :: "code_unit \<Rightarrow> nat" where
  "digit_val c = unat c - 48"

definition digits_nat :: "js_string \<Rightarrow> nat" where
  "digits_nat ds = foldl (\<lambda>a d. 10 * a + digit_val d) 0 ds"

definition hex_val :: "code_unit \<Rightarrow> nat option" where
  "hex_val c =
     (if 0x30 \<le> c \<and> c \<le> 0x39 then Some (unat c - 0x30)
      else if 0x61 \<le> c \<and> c \<le> 0x66 then Some (unat c - 0x61 + 10)
      else if 0x41 \<le> c \<and> c \<le> 0x46 then Some (unat c - 0x41 + 10)
      else None)"

definition skip_ws :: "js_string \<Rightarrow> js_string" where
  "skip_ws s = dropWhile is_json_ws s"

text \<open>The escapes of one character; \<^verbatim>\<open>\u\<close> is handled by the string lexer.\<close>

definition escape_char :: "code_unit \<Rightarrow> code_unit option" where
  "escape_char e =
     (if e = 0x22 then Some 0x22
      else if e = 0x5C then Some 0x5C
      else if e = 0x2F then Some 0x2F
      else if e = 0x62 then Some 0x08
      else if e = 0x66 then Some 0x0C
      else if e = 0x6E then Some 0x0A
      else if e = 0x72 then Some 0x0D
      else if e = 0x74 then Some 0x09
      else None)"

definition hex4 :: "code_unit \<Rightarrow> code_unit \<Rightarrow> code_unit \<Rightarrow> code_unit \<Rightarrow> code_unit option" where
  "hex4 a b c d =
     (case (hex_val a, hex_val b, hex_val c, hex_val d) of
        (Some w, Some x, Some y, Some z) \<Rightarrow> Some (of_nat (((w * 16 + x) * 16 + y) * 16 + z))
      | _ \<Rightarrow> None)"

text \<open>The body of a string literal after its opening quote: the decoded code units and the rest.\<close>

fun lex_string :: "js_string \<Rightarrow> js_string \<Rightarrow> (js_string \<times> js_string) option" where
  "lex_string acc [] = None"
| "lex_string acc (c # cs) =
     (if c = 0x22 then Some (acc, cs)
      else if c < 0x20 then None
      else if c = 0x5C then
        (case cs of
           [] \<Rightarrow> None
         | e # r \<Rightarrow>
             (if e = 0x75 then
                (case r of
                   a # b # c' # d # r' \<Rightarrow>
                     (case hex4 a b c' d of None \<Rightarrow> None | Some u \<Rightarrow> lex_string (acc @ [u]) r')
                 | _ \<Rightarrow> None)
              else (case escape_char e of None \<Rightarrow> None | Some u \<Rightarrow> lex_string (acc @ [u]) r)))
      else lex_string (acc @ [c]) cs)"

subsection \<open>Numbers\<close>

definition lex_int :: "js_string \<Rightarrow> (js_string \<times> js_string) option" where
  "lex_int s =
     (case s of
        [] \<Rightarrow> None
      | c # r \<Rightarrow>
          (if c = 0x30 then Some ([c], r)
           else if is_digit c then Some (takeWhile is_digit s, dropWhile is_digit s)
           else None))"

definition lex_frac :: "js_string \<Rightarrow> (js_string \<times> js_string) option" where
  "lex_frac s =
     (case s of
        [] \<Rightarrow> Some ([], [])
      | c # r \<Rightarrow>
          (if c = 0x2E then
             (if takeWhile is_digit r = [] then None
              else Some (takeWhile is_digit r, dropWhile is_digit r))
           else Some ([], s)))"

definition exp_sign :: "js_string \<Rightarrow> bool \<times> js_string" where
  "exp_sign s =
     (case s of
        [] \<Rightarrow> (False, [])
      | d # r \<Rightarrow> (if d = 0x2D then (True, r) else if d = 0x2B then (False, r) else (False, s)))"

definition lex_exp :: "js_string \<Rightarrow> (int \<times> js_string) option" where
  "lex_exp s =
     (case s of
        [] \<Rightarrow> Some (0, [])
      | c # r \<Rightarrow>
          (if c = 0x65 \<or> c = 0x45 then
             (case exp_sign r of
                (neg, r1) \<Rightarrow>
                  (if takeWhile is_digit r1 = [] then None
                   else Some ((if neg then - int (digits_nat (takeWhile is_digit r1))
                               else int (digits_nat (takeWhile is_digit r1))),
                              dropWhile is_digit r1)))
           else Some (0, s)))"

definition scale10 :: "nat \<Rightarrow> int \<Rightarrow> rat" where
  "scale10 m e = (if 0 \<le> e then of_nat m * 10 ^ nat e else of_nat m / 10 ^ nat (- e))"

definition number_value :: "bool \<Rightarrow> js_string \<Rightarrow> js_string \<Rightarrow> int \<Rightarrow> rat" where
  "number_value neg ip fp e =
     (let m = scale10 (digits_nat (ip @ fp)) (e - int (length fp)) in if neg then - m else m)"

definition lex_number :: "js_string \<Rightarrow> (rat \<times> js_string) option" where
  "lex_number s =
     (let (neg, s1) = (case s of [] \<Rightarrow> (False, []) | c # r \<Rightarrow> if c = 0x2D then (True, r) else (False, s))
      in case lex_int s1 of
           None \<Rightarrow> None
         | Some (ip, s2) \<Rightarrow>
             (case lex_frac s2 of
                None \<Rightarrow> None
              | Some (fp, s3) \<Rightarrow>
                  (case lex_exp s3 of
                     None \<Rightarrow> None
                   | Some (e, s4) \<Rightarrow> Some (number_value neg ip fp e, s4))))"

text \<open>A literal word: the rest after it, if the input starts with it.\<close>

fun match_lit :: "js_string \<Rightarrow> js_string \<Rightarrow> js_string option" where
  "match_lit [] s = Some s"
| "match_lit (x # xs) [] = None"
| "match_lit (x # xs) (y # ys) = (if x = y then match_lit xs ys else None)"

subsection \<open>Values\<close>

datatype 'a step = OutOfFuel | Reject | Parsed 'a js_string

fun parse_value :: "nat \<Rightarrow> js_string \<Rightarrow> json step"
and parse_elements :: "nat \<Rightarrow> json list \<Rightarrow> js_string \<Rightarrow> json step"
and parse_members :: "nat \<Rightarrow> (js_string \<times> json) list \<Rightarrow> js_string \<Rightarrow> json step" where
  "parse_value 0 s = OutOfFuel"
| "parse_value (Suc n) s =
     (case skip_ws s of
        [] \<Rightarrow> Reject
      | c # cs \<Rightarrow>
          (if c = 0x7B then
             (case skip_ws cs of
                d # r \<Rightarrow> if d = 0x7D then Parsed (JObj []) r else parse_members n [] (skip_ws cs)
              | [] \<Rightarrow> Reject)
           else if c = 0x5B then
             (case skip_ws cs of
                d # r \<Rightarrow> if d = 0x5D then Parsed (JArr []) r else parse_elements n [] (skip_ws cs)
              | [] \<Rightarrow> Reject)
           else if c = 0x22 then
             (case lex_string [] cs of None \<Rightarrow> Reject | Some (str, r) \<Rightarrow> Parsed (JStr str) r)
           else if c = 0x2D \<or> is_digit c then
             (case lex_number (c # cs) of None \<Rightarrow> Reject | Some (x, r) \<Rightarrow> Parsed (JNum x) r)
           else
             (case match_lit (js ''null'') (c # cs) of
                Some r \<Rightarrow> Parsed JNull r
              | None \<Rightarrow>
                  (case match_lit (js ''true'') (c # cs) of
                     Some r \<Rightarrow> Parsed (JBool True) r
                   | None \<Rightarrow>
                       (case match_lit (js ''false'') (c # cs) of
                          Some r \<Rightarrow> Parsed (JBool False) r
                        | None \<Rightarrow> Reject)))))"
| "parse_elements 0 acc s = OutOfFuel"
| "parse_elements (Suc n) acc s =
     (case parse_value n s of
        OutOfFuel \<Rightarrow> OutOfFuel
      | Reject \<Rightarrow> Reject
      | Parsed v r \<Rightarrow>
          (case skip_ws r of
             [] \<Rightarrow> Reject
           | d # r' \<Rightarrow>
               (if d = 0x2C then parse_elements n (acc @ [v]) r'
                else if d = 0x5D then Parsed (JArr (acc @ [v])) r'
                else Reject)))"
| "parse_members 0 acc s = OutOfFuel"
| "parse_members (Suc n) acc s =
     (case skip_ws s of
        [] \<Rightarrow> Reject
      | q # cs \<Rightarrow>
          (if q \<noteq> 0x22 then Reject
           else
             (case lex_string [] cs of
                None \<Rightarrow> Reject
              | Some (k, r) \<Rightarrow>
                  (case skip_ws r of
                     [] \<Rightarrow> Reject
                   | col # r1 \<Rightarrow>
                       (if col \<noteq> 0x3A then Reject
                        else
                          (case parse_value n r1 of
                             OutOfFuel \<Rightarrow> OutOfFuel
                           | Reject \<Rightarrow> Reject
                           | Parsed v r2 \<Rightarrow>
                               (case skip_ws r2 of
                                  [] \<Rightarrow> Reject
                                | d # r3 \<Rightarrow>
                                    (if d = 0x2C then parse_members n (acc @ [(k, v)]) r3
                                     else if d = 0x7D then Parsed (JObj (acc @ [(k, v)])) r3
                                     else Reject))))))))"

text \<open>\<^verbatim>\<open>JSON.parse(text)\<close>: one value, surrounded by whitespace only.\<close>

datatype parse_error = SyntaxError

definition json_parse :: "js_string \<Rightarrow> parse_error + json" where
  "json_parse s =
     (case parse_value (2 * length s + 1) s of
        Parsed v r \<Rightarrow> (if skip_ws r = [] then Inr v else Inl SyntaxError)
      | _ \<Rightarrow> Inl SyntaxError)"

text \<open>The values whose numbers are all natural numbers.\<close>

fun nat_numbers :: "json \<Rightarrow> bool" where
  "nat_numbers (JNum x) \<longleftrightarrow> x = of_int \<lfloor>x\<rfloor> \<and> 0 \<le> x"
| "nat_numbers (JArr vs) \<longleftrightarrow> list_all nat_numbers vs"
| "nat_numbers (JObj ms) \<longleftrightarrow> list_all (\<lambda>m. nat_numbers (snd m)) ms"
| "nat_numbers _ \<longleftrightarrow> True"

subsection \<open>Every lexer and parser step consumes input\<close>

lemma lex_string_shorter: "lex_string acc s = Some (x, r) \<Longrightarrow> length r < length s"
proof (induction acc s rule: lex_string.induct)
  case (1 acc)
  then show ?case by simp
next
  case (2 acc c cs)
  show ?case
  proof (cases "c = 0x22")
    case True
    with "2.prems" show ?thesis by simp
  next
    case nq: False
    show ?thesis
    proof (cases "c = 0x5C")
      case False
      with nq "2.prems" "2.IH"(3) show ?thesis by (simp split: if_splits)
    next
      case True
      then obtain e r0 where cs: "cs = e # r0"
        using nq "2.prems" by (cases cs) auto
      show ?thesis
      proof (cases "e = 0x75")
        case True
        with cs nq \<open>c = 0x5C\<close> "2.prems" "2.IH"(1) show ?thesis
          by (auto split: list.splits option.splits) fastforce
      next
        case False
        with cs nq \<open>c = 0x5C\<close> "2.prems" "2.IH"(2) show ?thesis
          by (auto split: option.splits) fastforce
      qed
    qed
  qed
qed

lemma match_lit_shorter: "match_lit xs s = Some r \<Longrightarrow> length r \<le> length s"
  by (induction xs s rule: match_lit.induct) (auto split: if_splits)

lemma match_lit_Cons_shorter: "match_lit (x # xs) s = Some r \<Longrightarrow> length r < length s"
  by (cases s) (auto split: if_splits dest: match_lit_shorter)

lemma match_lit_js_shorter: "match_lit (js (x # xs)) s = Some r \<Longrightarrow> length r < length s"
  unfolding js_Cons by (rule match_lit_Cons_shorter)

lemma lex_int_shorter: "lex_int s = Some (ip, r) \<Longrightarrow> length r < length s"
  by (auto simp: lex_int_def less_Suc_eq_le length_dropWhile_le split: list.splits if_splits)

lemma lex_frac_shorter: "lex_frac s = Some (fp, r) \<Longrightarrow> length r \<le> length s"
  by (auto simp: lex_frac_def length_dropWhile_le le_SucI split: list.splits if_splits)

lemma exp_sign_shorter: "exp_sign s = (neg, r) \<Longrightarrow> length r \<le> length s"
  by (auto simp: exp_sign_def split: list.splits if_splits)

lemma lex_exp_shorter: "lex_exp s = Some (e, r) \<Longrightarrow> length r \<le> length s"
proof -
  assume a: "lex_exp s = Some (e, r)"
  show ?thesis
  proof (cases s)
    case Nil
    with a show ?thesis by (simp add: lex_exp_def)
  next
    case (Cons c cs)
    obtain neg r1 where es: "exp_sign cs = (neg, r1)" by fastforce
    then have "length r1 \<le> length cs" by (rule exp_sign_shorter)
    moreover have "length (dropWhile is_digit r1) \<le> length r1" by (rule length_dropWhile_le)
    ultimately show ?thesis using a Cons es
      by (auto simp: lex_exp_def split: if_splits)
  qed
qed

lemma lex_number_shorter: "lex_number s = Some (x, r) \<Longrightarrow> length r < length s"
proof -
  assume a: "lex_number s = Some (x, r)"
  obtain neg s1 where sg: "(case s of [] \<Rightarrow> (False, []) | c # r \<Rightarrow> if c = 0x2D then (True, r) else (False, s)) = (neg, s1)"
    by fastforce
  have s1: "length s1 \<le> length s" using sg by (auto split: list.splits if_splits)
  from a sg obtain ip s2 fp s3 e where
    i: "lex_int s1 = Some (ip, s2)" and f: "lex_frac s2 = Some (fp, s3)" and x: "lex_exp s3 = Some (e, r)"
    by (auto simp: lex_number_def split: option.splits)
  from i f x have "length r < length s1"
    by (meson lex_int_shorter lex_frac_shorter lex_exp_shorter le_less_trans order_trans)
  with s1 show ?thesis by simp
qed

lemma length_skip_ws [simp]: "length (skip_ws s) \<le> length s"
  by (simp add: skip_ws_def length_dropWhile_le)

lemma skip_ws_Cons_less: "skip_ws s = c # r \<Longrightarrow> length r < length s"
  using length_dropWhile_le [of is_json_ws s] by (simp add: skip_ws_def)

lemma parse_shorter:
  "parse_value n s = Parsed v r \<Longrightarrow> length r < length s"
  "parse_elements n acc s = Parsed v r \<Longrightarrow> length r < length s"
  "parse_members n macc s = Parsed v r \<Longrightarrow> length r < length s"
proof (induction n s and n acc s and n macc s arbitrary: v r and v r and v r
       rule: parse_value_parse_elements_parse_members.induct)
  case (2 n s)
  from "2.prems" obtain c cs where sw: "skip_ws s = c # cs" by (auto split: list.splits)
  have cs: "length cs < length s" using sw by (rule skip_ws_Cons_less)
  have inner: "length (skip_ws cs) < length s"
    using cs length_dropWhile_le [of is_json_ws cs] by (simp add: skip_ws_def)
  show ?case
  proof (cases "c = 0x7B \<or> c = 0x5B")
    case True
    then obtain d r0 where sc: "skip_ws cs = d # r0"
      using "2.prems" sw by (auto split: list.splits)
    have r0: "length r0 < length s" using sc inner by simp
    consider (close) "(c = 0x7B \<and> d = 0x7D) \<or> (c = 0x5B \<and> d = 0x5D)"
      | (obj) "c = 0x7B" "d \<noteq> 0x7D" | (arr) "c = 0x5B" "d \<noteq> 0x5D"
      using True by blast
    then show ?thesis
    proof cases
      case close
      with "2.prems" sw sc r0 show ?thesis by auto
    next
      case obj
      with "2.prems" sw sc have "parse_members n [] (skip_ws cs) = Parsed v r" by simp
      with "2.IH"(1) [OF sw obj(1) sc obj(2)] inner show ?thesis by fastforce
    next
      case arr
      with "2.prems" sw sc have "parse_elements n [] (skip_ws cs) = Parsed v r" by simp
      with "2.IH"(2) [OF sw _ arr(1) sc arr(2)] arr inner show ?thesis by fastforce
    qed
  next
    case nb: False
    have ws: "length (c # cs) \<le> length s" using sw length_skip_ws [of s] by simp
    consider (str) "c = 0x22" | (num) "c \<noteq> 0x22" "c = 0x2D \<or> is_digit c"
      | (lit) "c \<noteq> 0x22" "\<not> (c = 0x2D \<or> is_digit c)"
      by blast
    then show ?thesis
    proof cases
      case str
      with "2.prems" sw nb obtain x where "lex_string [] cs = Some (x, r)"
        by (auto split: option.splits)
      then have "length r < length cs" by (rule lex_string_shorter)
      with cs show ?thesis by simp
    next
      case num
      with "2.prems" sw nb obtain x where "lex_number (c # cs) = Some (x, r)"
        by (auto split: option.splits)
      then have "length r < length (c # cs)" by (rule lex_number_shorter)
      with ws show ?thesis by simp
    next
      case lit
      with "2.prems" sw nb have "match_lit (js ''null'') (c # cs) = Some r \<or>
          match_lit (js ''true'') (c # cs) = Some r \<or> match_lit (js ''false'') (c # cs) = Some r"
        by (auto simp del: js_Cons split: option.splits)
      then have "length r < length (c # cs)"
        by (blast dest: match_lit_js_shorter)
      with ws show ?thesis by simp
    qed
  qed
next
  case (4 n acc s)
  from "4.prems" obtain v0 r0 where pv: "parse_value n s = Parsed v0 r0"
    by (auto split: step.splits)
  have r0: "length r0 < length s" using "4.IH"(1) pv by blast
  from "4.prems" pv obtain d r' where sk: "skip_ws r0 = d # r'"
    by (auto split: list.splits)
  have r': "length r' < length s" using skip_ws_Cons_less [OF sk] r0 by simp
  show ?case
  proof (cases "d = 0x2C")
    case True
    with "4.prems" pv sk have "parse_elements n (acc @ [v0]) r' = Parsed v r" by simp
    with "4.IH"(2) pv sk True r' show ?thesis by fastforce
  next
    case False
    with "4.prems" pv sk r' show ?thesis by (auto split: if_splits)
  qed
next
  case (6 n macc s)
  from "6.prems" obtain q cs where sw: "skip_ws s = q # cs"
    by (auto split: list.splits)
  have q: "q = 0x22" using "6.prems" sw by (auto split: if_splits)
  from "6.prems" sw q obtain k r1 where ls: "lex_string [] cs = Some (k, r1)"
    by (auto split: option.splits)
  from "6.prems" sw q ls obtain col r2 where sk: "skip_ws r1 = col # r2"
    by (auto split: list.splits)
  have col: "col = 0x3A" using "6.prems" sw q ls sk by (auto split: if_splits)
  from "6.prems" sw q ls sk col obtain v0 r3 where pv: "parse_value n r2 = Parsed v0 r3"
    by (auto split: step.splits)
  have r2: "length r2 < length s"
    using skip_ws_Cons_less [OF sw] lex_string_shorter [OF ls] skip_ws_Cons_less [OF sk] by simp
  have r3: "length r3 < length s"
    using "6.IH"(1) sw q ls sk col pv r2 by fastforce
  from "6.prems" sw q ls sk col pv obtain d r4 where sk2: "skip_ws r3 = d # r4"
    by (auto split: list.splits)
  have r4: "length r4 < length s" using skip_ws_Cons_less [OF sk2] r3 by simp
  show ?case
  proof (cases "d = 0x2C")
    case True
    with "6.prems" sw q ls sk col pv sk2 have "parse_members n (macc @ [(k, v0)]) r4 = Parsed v r"
      by simp
    with "6.IH"(2) sw q ls sk col pv sk2 True r4 show ?thesis by fastforce
  next
    case False
    with "6.prems" sw q ls sk col pv sk2 r4 show ?thesis by (auto split: if_splits)
  qed
qed simp_all

lemma parse_fuel:
  "2 * length s < n \<Longrightarrow> parse_value n s \<noteq> OutOfFuel"
  "2 * length s + 1 < n \<Longrightarrow> parse_elements n acc s \<noteq> OutOfFuel"
  "2 * length s + 1 < n \<Longrightarrow> parse_members n macc s \<noteq> OutOfFuel"
proof (induction n s and n acc s and n macc s rule: parse_value_parse_elements_parse_members.induct)
  case (2 n s)
  show ?case
  proof
    assume oof: "parse_value (Suc n) s = OutOfFuel"
    then obtain c cs where sw: "skip_ws s = c # cs" by (auto split: list.splits)
    have inner: "2 * length (skip_ws cs) + 1 < n"
      using skip_ws_Cons_less [OF sw] length_skip_ws [of cs] "2.prems" by linarith
    show False
    proof (cases "c = 0x7B")
      case True
      with oof sw obtain d r where sc: "skip_ws cs = d # r" "d \<noteq> 0x7D"
        and pm: "parse_members n [] (skip_ws cs) = OutOfFuel"
        by (auto split: list.splits if_splits)
      from "2.IH"(1) [OF sw True sc] inner pm show False by simp
    next
      case nobj: False
      show False
      proof (cases "c = 0x5B")
        case True
        with oof sw nobj obtain d r where sc: "skip_ws cs = d # r" "d \<noteq> 0x5D"
          and pe: "parse_elements n [] (skip_ws cs) = OutOfFuel"
          by (auto split: list.splits if_splits)
        from "2.IH"(2) [OF sw nobj True sc] inner pe show False by simp
      next
        case False
        with oof sw nobj show False
          by (auto split: if_splits option.splits)
      qed
    qed
  qed
next
  case (4 n acc s)
  show ?case
  proof
    assume oof: "parse_elements (Suc n) acc s = OutOfFuel"
    have pv: "parse_value n s \<noteq> OutOfFuel" using "4.IH"(1) "4.prems" by simp
    with oof obtain v0 r0 where pvs: "parse_value n s = Parsed v0 r0"
      by (auto split: step.splits)
    with oof obtain d r' where sk: "skip_ws r0 = d # r'" and d: "d = 0x2C"
      and pe: "parse_elements n (acc @ [v0]) r' = OutOfFuel"
      by (auto split: list.splits if_splits)
    have "length r' < length s"
      using skip_ws_Cons_less [OF sk] parse_shorter(1) [OF pvs] by simp
    with "4.IH"(2) [OF pvs sk d] "4.prems" pe show False by simp
  qed
next
  case (6 n macc s)
  show ?case
  proof
    assume oof: "parse_members (Suc n) macc s = OutOfFuel"
    then obtain q cs where sw: "skip_ws s = q # cs" by (auto split: list.splits)
    from oof sw obtain k r1 where q: "q = 0x22" and ls: "lex_string [] cs = Some (k, r1)"
      by (auto split: if_splits option.splits)
    from oof sw q ls obtain col r2 where sk: "skip_ws r1 = col # r2" and col: "col = 0x3A"
      by (auto split: list.splits if_splits)
    have r2: "length r2 < length s"
      using skip_ws_Cons_less [OF sw] lex_string_shorter [OF ls] skip_ws_Cons_less [OF sk] by simp
    have "parse_value n r2 \<noteq> OutOfFuel"
      using "6.IH"(1) sw q ls sk col r2 "6.prems" by fastforce
    with oof sw q ls sk col obtain v0 r3 where pv: "parse_value n r2 = Parsed v0 r3"
      by (auto split: step.splits)
    with oof sw q ls sk col obtain d r4 where sk2: "skip_ws r3 = d # r4" and d: "d = 0x2C"
      and pm: "parse_members n (macc @ [(k, v0)]) r4 = OutOfFuel"
      by (auto split: list.splits if_splits)
    have "length r4 < length s"
      using skip_ws_Cons_less [OF sk2] parse_shorter(1) [OF pv] r2 by simp
    with "6.IH"(2) sw q ls sk col pv sk2 d "6.prems" pm show False by fastforce
  qed
qed simp_all

subsection \<open>Termination of the parser\<close>

text \<open>\<open>json_parse\<close> gives the parser enough fuel on every input: the result is a
  parsed value or a rejection, never the exhaustion of the fuel, so \<open>json_parse\<close>
  is the total function \<^verbatim>\<open>JSON.parse\<close> is.\<close>

lemma json_parse_fuel_enough: "parse_value (2 * length s + 1) s \<noteq> OutOfFuel"
  by (rule parse_fuel(1)) simp

subsection \<open>Texts without a point or a minus sign hold only natural numbers\<close>

text \<open>Without \<^verbatim>\<open>.\<close> there is no fraction and without \<^verbatim>\<open>-\<close> no negative
  number or negative exponent, so every number the parser reads is a natural number.  The
  proof follows the parser, with the remainder of each step a subset of its input.\<close>

lemma set_skip_ws: "set (skip_ws s) \<subseteq> set s"
  by (auto simp: skip_ws_def dest: set_dropWhileD)

lemma lex_string_set: "lex_string acc s = Some (x, r) \<Longrightarrow> set r \<subseteq> set s"
proof (induction acc s rule: lex_string.induct)
  case (1 acc)
  then show ?case by simp
next
  case (2 acc c cs)
  show ?case
  proof (cases "c = 0x22")
    case True
    with "2.prems" show ?thesis by auto
  next
    case nq: False
    show ?thesis
    proof (cases "c = 0x5C")
      case False
      with nq "2.prems" "2.IH"(3) show ?thesis by (auto split: if_splits)
    next
      case True
      then obtain e r0 where cs: "cs = e # r0"
        using nq "2.prems" by (cases cs) auto
      show ?thesis
      proof (cases "e = 0x75")
        case True
        with cs nq \<open>c = 0x5C\<close> "2.prems" "2.IH"(1) show ?thesis
          by (auto split: list.splits option.splits) fastforce
      next
        case False
        with cs nq \<open>c = 0x5C\<close> "2.prems" "2.IH"(2) show ?thesis
          by (auto split: option.splits)
      qed
    qed
  qed
qed

lemma match_lit_set: "match_lit xs s = Some r \<Longrightarrow> set r \<subseteq> set s"
  by (induction xs s rule: match_lit.induct) (auto split: if_splits)

lemma lex_number_nat:
  assumes "lex_number s = Some (x, r)" and "set s \<inter> {0x2E, 0x2D} = {}"
  shows "x = of_int \<lfloor>x\<rfloor> \<and> 0 \<le> x"
proof -
  have s1: "(case s of [] \<Rightarrow> (False, []) | c # r \<Rightarrow> if c = 0x2D then (True, r) else (False, s)) = (False, s)"
    using assms(2) by (cases s) auto
  from assms(1) s1 obtain ip s2 fp s3 e where
    i: "lex_int s = Some (ip, s2)" and f: "lex_frac s2 = Some (fp, s3)" and x: "lex_exp s3 = Some (e, r)"
    and xv: "x = number_value False ip fp e"
    by (auto simp: lex_number_def split: option.splits)
  have s2: "set s2 \<subseteq> set s" using i by (auto simp: lex_int_def split: list.splits if_splits dest: set_dropWhileD)
  have fp: "fp = [] \<and> s3 = s2"
    using f s2 assms(2) by (cases s2) (auto simp: lex_frac_def split: if_splits)
  have e: "0 \<le> e"
    using x fp s2 assms(2) by (cases s3) (auto simp: lex_exp_def exp_sign_def split: if_splits list.splits)
  have "x = of_nat (digits_nat ip * 10 ^ nat e)"
    using xv fp e by (simp add: number_value_def scale10_def)
  then show ?thesis by simp
qed

lemma lex_int_set: "lex_int s = Some (ip, r) \<Longrightarrow> set r \<subseteq> set s"
  by (auto simp: lex_int_def split: list.splits if_splits dest: set_dropWhileD)

lemma lex_frac_set: "lex_frac s = Some (fp, r) \<Longrightarrow> set r \<subseteq> set s"
  by (auto simp: lex_frac_def split: list.splits if_splits dest: set_dropWhileD)

lemma exp_sign_set: "exp_sign s = (neg, r) \<Longrightarrow> set r \<subseteq> set s"
  by (auto simp: exp_sign_def split: list.splits if_splits)

lemma lex_exp_set: "lex_exp s = Some (e, r) \<Longrightarrow> set r \<subseteq> set s"
proof (cases s)
  case (Cons c t)
  obtain neg r1 where sg: "exp_sign t = (neg, r1)" by fastforce
  then have "set r1 \<subseteq> set t" by (rule exp_sign_set)
  moreover assume "lex_exp s = Some (e, r)"
  ultimately show ?thesis
    using Cons sg by (auto simp: lex_exp_def split: if_splits dest: set_dropWhileD)
qed (simp add: lex_exp_def)

lemma lex_number_set: "lex_number s = Some (x, r) \<Longrightarrow> set r \<subseteq> set s"
proof -
  assume a: "lex_number s = Some (x, r)"
  obtain neg s1 where sg: "(case s of [] \<Rightarrow> (False, []) | c # r \<Rightarrow> if c = 0x2D then (True, r) else (False, s)) = (neg, s1)"
    by fastforce
  have s1: "set s1 \<subseteq> set s" using sg by (auto split: list.splits if_splits)
  from a sg obtain ip s2 fp s3 e where
    i: "lex_int s1 = Some (ip, s2)" and f: "lex_frac s2 = Some (fp, s3)" and x: "lex_exp s3 = Some (e, r)"
    by (auto simp: lex_number_def split: option.splits)
  have "set s2 \<subseteq> set s1" by (rule lex_int_set [OF i])
  moreover have "set s3 \<subseteq> set s2" by (rule lex_frac_set [OF f])
  moreover have "set r \<subseteq> set s3" by (rule lex_exp_set [OF x])
  ultimately show ?thesis using s1 by order
qed

lemma skip_ws_Cons_set: "skip_ws s = c # r \<Longrightarrow> insert c (set r) \<subseteq> set s"
  using set_skip_ws [of s] by simp

lemma parse_nat_numbers:
  "parse_value n s = Parsed v r \<Longrightarrow>
     set r \<subseteq> set s \<and> (set s \<inter> {0x2E, 0x2D} = {} \<longrightarrow> nat_numbers v)"
  "parse_elements n acc s = Parsed v r \<Longrightarrow>
     set r \<subseteq> set s \<and> (set s \<inter> {0x2E, 0x2D} = {} \<longrightarrow> list_all nat_numbers acc \<longrightarrow> nat_numbers v)"
  "parse_members n macc s = Parsed v r \<Longrightarrow>
     set r \<subseteq> set s \<and>
     (set s \<inter> {0x2E, 0x2D} = {} \<longrightarrow> list_all (\<lambda>m. nat_numbers (snd m)) macc \<longrightarrow> nat_numbers v)"
proof (induction n s and n acc s and n macc s arbitrary: v r and v r and v r
       rule: parse_value_parse_elements_parse_members.induct)
  case (2 n s)
  from "2.prems" obtain c cs where sw: "skip_ws s = c # cs" by (auto split: list.splits)
  have ccs: "insert c (set cs) \<subseteq> set s" using sw by (rule skip_ws_Cons_set)
  have inner: "set (skip_ws cs) \<subseteq> set s" using ccs set_skip_ws [of cs] by blast
  show ?case
  proof (cases "c = 0x7B \<or> c = 0x5B")
    case True
    then obtain d r0 where sc: "skip_ws cs = d # r0"
      using "2.prems" sw by (auto split: list.splits)
    have r0: "set r0 \<subseteq> set s" using sc inner by simp
    consider (close) "(c = 0x7B \<and> d = 0x7D) \<or> (c = 0x5B \<and> d = 0x5D)"
      | (obj) "c = 0x7B" "d \<noteq> 0x7D" | (arr) "c = 0x5B" "d \<noteq> 0x5D"
      using True by blast
    then show ?thesis
    proof cases
      case close
      with "2.prems" sw sc r0 show ?thesis by auto
    next
      case obj
      with "2.prems" sw sc have "parse_members n [] (skip_ws cs) = Parsed v r" by simp
      with "2.IH"(1) [OF sw obj(1) sc obj(2)] inner show ?thesis by fastforce
    next
      case arr
      with "2.prems" sw sc have "parse_elements n [] (skip_ws cs) = Parsed v r" by simp
      with "2.IH"(2) [OF sw _ arr(1) sc arr(2)] arr inner show ?thesis by fastforce
    qed
  next
    case nb: False
    consider (str) "c = 0x22" | (num) "c \<noteq> 0x22" "c = 0x2D \<or> is_digit c"
      | (lit) "c \<noteq> 0x22" "\<not> (c = 0x2D \<or> is_digit c)"
      by blast
    then show ?thesis
    proof cases
      case str
      with "2.prems" sw nb obtain x where "lex_string [] cs = Some (x, r)" and "v = JStr x"
        by (auto split: option.splits)
      with ccs show ?thesis by (auto dest: lex_string_set)
    next
      case num
      with "2.prems" sw nb obtain x where x: "lex_number (c # cs) = Some (x, r)" and "v = JNum x"
        by (auto split: option.splits)
      moreover have "set r \<subseteq> set s" using lex_number_set [OF x] ccs by auto
      moreover have "set s \<inter> {0x2E, 0x2D} = {} \<Longrightarrow> nat_numbers (JNum x)"
        using lex_number_nat [OF x] ccs by auto
      ultimately show ?thesis by simp
    next
      case lit
      with "2.prems" sw nb have m: "match_lit (js ''null'') (c # cs) = Some r \<or>
          match_lit (js ''true'') (c # cs) = Some r \<or> match_lit (js ''false'') (c # cs) = Some r"
        by (auto simp del: js_Cons split: option.splits)
      from lit "2.prems" sw nb have "v = JNull \<or> v = JBool True \<or> v = JBool False"
        by (auto simp del: js_Cons split: option.splits)
      moreover from m have "set r \<subseteq> set (c # cs)"
        by (elim disjE) (erule match_lit_set)+
      ultimately show ?thesis using ccs by auto
    qed
  qed
next
  case (4 n acc s)
  from "4.prems" obtain v0 r0 where pv: "parse_value n s = Parsed v0 r0"
    by (auto split: step.splits)
  have r0: "set r0 \<subseteq> set s" and v0: "set s \<inter> {0x2E, 0x2D} = {} \<Longrightarrow> nat_numbers v0"
    using "4.IH"(1) [OF pv] by blast+
  from "4.prems" pv obtain d r' where sk: "skip_ws r0 = d # r'"
    by (auto split: list.splits)
  have r': "set r' \<subseteq> set s" using skip_ws_Cons_set [OF sk] r0 by blast
  show ?case
  proof (cases "d = 0x2C")
    case True
    with "4.prems" pv sk have "parse_elements n (acc @ [v0]) r' = Parsed v r" by simp
    from "4.IH"(2) [OF pv sk True this] r' v0 show ?thesis by auto
  next
    case False
    with "4.prems" pv sk r' v0 show ?thesis by (auto split: if_splits)
  qed
next
  case (6 n macc s)
  from "6.prems" obtain q cs where sw: "skip_ws s = q # cs"
    by (auto split: list.splits)
  have q: "q = 0x22" using "6.prems" sw by (auto split: if_splits)
  from "6.prems" sw q obtain k r1 where ls: "lex_string [] cs = Some (k, r1)"
    by (auto split: option.splits)
  from "6.prems" sw q ls obtain col r2 where sk: "skip_ws r1 = col # r2"
    by (auto split: list.splits)
  have col: "col = 0x3A" using "6.prems" sw q ls sk by (auto split: if_splits)
  from "6.prems" sw q ls sk col obtain v0 r3 where pv: "parse_value n r2 = Parsed v0 r3"
    by (auto split: step.splits)
  have r2: "set r2 \<subseteq> set s"
    using skip_ws_Cons_set [OF sw] lex_string_set [OF ls] skip_ws_Cons_set [OF sk] by blast
  have IH1: "set r3 \<subseteq> set r2 \<and> (set r2 \<inter> {0x2E, 0x2D} = {} \<longrightarrow> nat_numbers v0)"
    using "6.IH"(1) sw q ls sk col pv by fastforce
  have r3: "set r3 \<subseteq> set s" using IH1 r2 by blast
  have v0: "set s \<inter> {0x2E, 0x2D} = {} \<Longrightarrow> nat_numbers v0" using IH1 r2 by blast
  from "6.prems" sw q ls sk col pv obtain d r4 where sk2: "skip_ws r3 = d # r4"
    by (auto split: list.splits)
  have r4: "set r4 \<subseteq> set s" using skip_ws_Cons_set [OF sk2] r3 by blast
  show ?case
  proof (cases "d = 0x2C")
    case True
    with "6.prems" sw q ls sk col pv sk2 have "parse_members n (macc @ [(k, v0)]) r4 = Parsed v r"
      by simp
    with "6.IH"(2) sw q ls sk col pv sk2 True r4 v0 show ?thesis by fastforce
  next
    case False
    with "6.prems" sw q ls sk col pv sk2 r4 v0 show ?thesis by (auto split: if_splits)
  qed
qed simp_all

lemma json_parse_nat_numbers:
  "json_parse s = Inr v \<Longrightarrow> set s \<inter> {0x2E, 0x2D} = {} \<Longrightarrow> nat_numbers v"
proof -
  assume p: "json_parse s = Inr v" and d: "set s \<inter> {0x2E, 0x2D} = {}"
  obtain r where "parse_value (2 * length s + 1) s = Parsed v r"
    using p unfolding json_parse_def by (cases "parse_value (2 * length s + 1) s") (simp_all split: if_splits)
  with d show ?thesis by (blast dest: parse_nat_numbers(1))
qed

end
