(* ===== verification/JsBuiltins.thy ===== *)
theory JsBuiltins
  imports Json
begin

text \<open>
  The JavaScript built-ins that tripPlan.ts calls on strings and values, modelled from
  ECMA-262 since they are not code of the repository: \<^verbatim>\<open>s[i]\<close> on a string,
  \<^verbatim>\<open>String.prototype.substring\<close>, the character class of the regular expression
  \<^verbatim>\<open>/[^\{\}\[\]\w\s,":]/g\<close> (matched per code unit, no \<^verbatim>\<open>u\<close> flag),
  \<^verbatim>\<open>Array.prototype.join\<close>, property reads on parsed JSON values, and the
  \<^verbatim>\<open>String(v)\<close> coercion that \<^verbatim>\<open>JSON.parse\<close> applies to a non-string argument
  (with \<^verbatim>\<open>Number::toString\<close> for the finite decimals that parsed JSON numbers are).
\<close>

subsection \<open>Strings\<close>

text \<open>\<^verbatim>\<open>s[i]\<close>: the code unit at \<open>i\<close>, or undefined (\<open>None\<close>) out of range.\<close>

definition js_char_at :: "js_string \<Rightarrow> nat \<Rightarrow> code_unit option" where
  "js_char_at s i = (if i < length s then Some (s ! i) else None)"

text \<open>\<^verbatim>\<open>s.substring(start, end)\<close>: both bounds clamped to \<open>[0, length]\<close>, then swapped
  when the start is the larger.\<close>

definition js_clamp :: "int \<Rightarrow> nat \<Rightarrow> nat" where
  "js_clamp i len = nat (min (max i 0) (int len))"

definition js_substring :: "js_string \<Rightarrow> int \<Rightarrow> int \<Rightarrow> js_string" where
  "js_substring s start stop =
     (let finalStart = js_clamp start (length s);
          finalEnd = js_clamp stop (length s);
          from = min finalStart finalEnd;
          to = max finalStart finalEnd
      in take (to - from) (drop from s))"

text \<open>\<^verbatim>\<open>\w\<close> is \<^verbatim>\<open>[A-Za-z0-9_]\<close>; \<^verbatim>\<open>\s\<close> is WhiteSpace and LineTerminator of ECMA-262.\<close>

definition is_word_char :: "code_unit \<Rightarrow> bool" where
  "is_word_char c \<longleftrightarrow>
     (0x41 \<le> c \<and> c \<le> 0x5A) \<or> (0x61 \<le> c \<and> c \<le> 0x7A) \<or> (0x30 \<le> c \<and> c \<le> 0x39) \<or> c = 0x5F"

definition is_space_char :: "code_unit \<Rightarrow> bool" where
  "is_space_char c \<longleftrightarrow>
     c = 0x09 \<or> c = 0x0A \<or> c = 0x0B \<or> c = 0x0C \<or> c = 0x0D \<or> c = 0x20 \<or> c = 0xA0 \<or>
     c = 0x1680 \<or> (0x2000 \<le> c \<and> c \<le> 0x200A) \<or> c = 0x2028 \<or> c = 0x2029 \<or>
     c = 0x202F \<or> c = 0x205F \<or> c = 0x3000 \<or> c = 0xFEFF"

text \<open>The code units the class \<^verbatim>\<open>[^\{\}\[\]\w\s,":]\<close> does not match, which the
  replacement keeps.\<close>

definition sanitizer_keeps :: "code_unit \<Rightarrow> bool" where
  "sanitizer_keeps c \<longleftrightarrow>
     c = 0x7B \<or> c = 0x7D \<or> c = 0x5B \<or> c = 0x5D \<or> is_word_char c \<or> is_space_char c \<or>
     c = 0x2C \<or> c = 0x22 \<or> c = 0x3A"

text \<open>\<^verbatim>\<open>s.replace(/[^...]/g, "")\<close>: every matched code unit replaced by nothing.\<close>

definition js_replace_class_global :: "(code_unit \<Rightarrow> bool) \<Rightarrow> js_string \<Rightarrow> js_string" where
  "js_replace_class_global keep s = filter keep s"

text \<open>\<^verbatim>\<open>xs.join(sep)\<close> on a list of strings, as the algorithm of ECMA-262 builds it:
  the separator before every element but the first.\<close>

fun js_join_from :: "js_string \<Rightarrow> bool \<Rightarrow> js_string list \<Rightarrow> js_string" where
  "js_join_from sep first [] = []"
| "js_join_from sep first (x # xs) = (if first then [] else sep) @ x @ js_join_from sep False xs"

definition js_join :: "js_string \<Rightarrow> js_string list \<Rightarrow> js_string" where
  "js_join sep xs = js_join_from sep True xs"

subsection \<open>Property reads on JSON values\<close>

text \<open>A canonical array index (\<^verbatim>\<open>"0"\<close>, \<^verbatim>\<open>"17"\<close>, no leading zero).\<close>

definition array_index :: "js_string \<Rightarrow> nat option" where
  "array_index k =
     (if k \<noteq> [] \<and> list_all is_digit k \<and> (k = [0x30] \<or> hd k \<noteq> 0x30)
      then Some (digits_nat k) else None)"

text \<open>\<^verbatim>\<open>v[k]\<close> on a value that is not \<^verbatim>\<open>null\<close> or undefined; \<open>None\<close> is undefined.
  Strings and arrays answer their indices and \<^verbatim>\<open>length\<close>; numbers and booleans have
  no own properties of interest.\<close>

fun js_get :: "json \<Rightarrow> js_string \<Rightarrow> json option" where
  "js_get (JObj ms) k = lookup_member ms k"
| "js_get (JArr vs) k =
     (if k = js ''length'' then Some (JNum (of_nat (length vs)))
      else case array_index k of
             Some i \<Rightarrow> (if i < length vs then Some (vs ! i) else None)
           | None \<Rightarrow> None)"
| "js_get (JStr s) k =
     (if k = js ''length'' then Some (JNum (of_nat (length s)))
      else case array_index k of
             Some i \<Rightarrow> (if i < length s then Some (JStr [s ! i]) else None)
           | None \<Rightarrow> None)"
| "js_get _ k = None"

definition is_nullish :: "json option \<Rightarrow> bool" where
  "is_nullish v \<longleftrightarrow> v = None \<or> v = Some JNull"

subsection \<open>String(v)\<close>

fun nat_digits :: "nat \<Rightarrow> js_string" where
  "nat_digits n = (if n < 10 then [of_nat (48 + n)] else nat_digits (n div 10) @ [of_nat (48 + n mod 10)])"

text \<open>The least \<open>j\<close> from \<open>j0\<close> on, within the fuel, with \<open>q\<close> dividing
  \<open>10^j\<close>: the number of decimals of a fraction with denominator \<open>q\<close>.\<close>

fun find_decimals :: "nat \<Rightarrow> nat \<Rightarrow> nat \<Rightarrow> nat option" where
  "find_decimals q j 0 = None"
| "find_decimals q j (Suc fuel) = (if q dvd 10 ^ j then Some j else find_decimals q (Suc j) fuel)"

function strip_zeros :: "nat \<Rightarrow> int \<Rightarrow> nat \<times> int" where
  "strip_zeros m t = (if m \<noteq> 0 \<and> m mod 10 = 0 then strip_zeros (m div 10) (t + 1) else (m, t))"
  by pat_completeness auto
termination
  by (relation "measure fst") auto

declare strip_zeros.simps [simp del]

text \<open>
  \<^verbatim>\<open>Number::toString\<close> of a positive finite decimal \<open>x = s * 10^(n - k)\<close> with
  \<open>s\<close> of \<open>k\<close> digits and no trailing zero, in the four layouts of ECMA-262.
\<close>

definition format_decimal :: "nat \<Rightarrow> int \<Rightarrow> js_string" where
  "format_decimal s t =
     (let ds = nat_digits s; k = int (length ds); n = t + k
      in if k \<le> n \<and> n \<le> 21 then ds @ replicate (nat (n - k)) 0x30
         else if 0 < n \<and> n \<le> 21 then take (nat n) ds @ [0x2E] @ drop (nat n) ds
         else if -6 < n \<and> n \<le> 0 then [0x30, 0x2E] @ replicate (nat (- n)) 0x30 @ ds
         else [hd ds] @ (if k = 1 then [] else 0x2E # tl ds) @ [0x65] @
              (if 0 \<le> n - 1 then [0x2B] else [0x2D]) @ nat_digits (nat \<bar>n - 1\<bar>))"

definition js_number_to_string :: "rat \<Rightarrow> js_string" where
  "js_number_to_string x =
     (if x = 0 then js ''0''
      else
        (let (p, q) = quotient_of \<bar>x\<bar>;
             digits = (case find_decimals (nat q) 0 (Suc (nat q)) of
                         Some e \<Rightarrow>
                           (case strip_zeros (nat p * (10 ^ e div nat q)) (- int e) of
                              (s, t) \<Rightarrow> format_decimal s t)
                       | None \<Rightarrow> js ''NaN'')
         in if x < 0 then 0x2D # digits else digits))"

text \<open>\<^verbatim>\<open>String(v)\<close> of a JSON value; array elements that are \<^verbatim>\<open>null\<close> join as
  the empty string.\<close>

fun js_to_string :: "json \<Rightarrow> js_string" where
  "js_to_string JNull = js ''null''"
| "js_to_string (JBool b) = (if b then js ''true'' else js ''false'')"
| "js_to_string (JNum x) = js_number_to_string x"
| "js_to_string (JStr s) = s"
| "js_to_string (JObj ms) = js ''[object Object]''"
| "js_to_string (JArr vs) =
     js_join (js '','') (map (\<lambda>v. if v = JNull then [] else js_to_string v) vs)"

subsection \<open>Lemmas on join\<close>

lemma js_join_Nil [simp]: "js_join sep [] = []"
  by (simp add: js_join_def)

end
