(* ===== verification/Fetch.thy ===== *)
theory Fetch
  imports JsBuiltins
begin

text \<open>
  \<^verbatim>\<open>fetchData\<close> (tripPlan.ts, lines 17--51): up to three sequential attempts, each
  posting the request, reading \<^verbatim>\<open>res.data?.choices[0]?.message?.content\<close>, removing a
  code fence and the characters outside the sanitizer's class when the content starts
  with a backtick, parsing it with \<^verbatim>\<open>JSON.parse\<close>, and accepting it only when it is a
  non-null object.  The network is an oracle: \<open>net req k\<close> is what \<^verbatim>\<open>axios.post\<close>
  gives for the \<open>k\<close>-th attempt (from 0) of request \<open>req\<close>, a rejection with its
  message or the body \<^verbatim>\<open>res.data\<close> as a JSON value.  The console output and the
  requests sent are an event trace, so the order of the effects is part of the result.
\<close>

record post_request =
  url :: js_string
  data :: json
  headers :: "(js_string \<times> js_string option) list"

datatype post_outcome = NetworkError js_string | Response json

type_synonym network = "post_request \<Rightarrow> nat \<Rightarrow> post_outcome"

text \<open>What an attempt can throw: the rejection of \<^verbatim>\<open>axios.post\<close>, a \<^verbatim>\<open>TypeError\<close> from
  reading a property of \<^verbatim>\<open>undefined\<close> or \<^verbatim>\<open>null\<close> (or calling \<^verbatim>\<open>substring\<close> on a
  non-string), the \<^verbatim>\<open>SyntaxError\<close> of \<^verbatim>\<open>JSON.parse\<close>, and the \<^verbatim>\<open>Error\<close> of line 38.\<close>

datatype attempt_error =
    AxiosError js_string
  | ReadTypeError
  | ParseSyntaxError
  | NotJsonObject

datatype fetch_error = FailedAfter3 attempt_error | UnexpectedError

text \<open>The console and the network as the program drives them: the attempt and failure
  logs of \<^verbatim>\<open>fetchData\<close>, each request posted, and the logs of the request functions
  and of the orchestrator, whose error type is the parameter.\<close>

datatype 'e event =
    LogAttempt nat
  | Post post_request
  | LogFailed nat attempt_error
  | LogInside
  | LogSaved js_string
  | LogPlanError 'e

text \<open>The message of \<^verbatim>\<open>(error as Error).message\<close> where the code fixes it; the texts of
  engine and transport errors are the engine's and are left open.\<close>

fun attempt_message :: "attempt_error \<Rightarrow> js_string option" where
  "attempt_message (AxiosError m) = Some m"
| "attempt_message NotJsonObject = Some (js ''Response is not a valid JSON object'')"
| "attempt_message _ = None"

fun fetch_error_message :: "fetch_error \<Rightarrow> js_string option" where
  "fetch_error_message (FailedAfter3 e) =
     map_option (\<lambda>m. js ''Failed after 3 attempts: '' @ m) (attempt_message e)"
| "fetch_error_message UnexpectedError = Some (js ''Unexpected error'')"

subsection \<open>One attempt\<close>

text \<open>\<^verbatim>\<open>res.data?.choices[0]?.message?.content\<close> (line 28): only \<^verbatim>\<open>[0]\<close> is not
  optionally chained, so a missing \<^verbatim>\<open>choices\<close> throws; \<open>Inr None\<close> is undefined.\<close>

definition read_content :: "json \<Rightarrow> attempt_error + json option" where
  "read_content body =
     (if body = JNull then Inr None
      else
        (case js_get body (js ''choices'') of
           None \<Rightarrow> Inl ReadTypeError
         | Some choices \<Rightarrow>
             (if choices = JNull then Inl ReadTypeError
              else
                (case js_get choices (js ''0'') of
                   None \<Rightarrow> Inr None
                 | Some c0 \<Rightarrow>
                     (if c0 = JNull then Inr None
                      else
                        (case js_get c0 (js ''message'') of
                           None \<Rightarrow> Inr None
                         | Some m \<Rightarrow> (if m = JNull then Inr None else Inr (js_get m (js ''content'')))))))))"

text \<open>\<^verbatim>\<open>response[0] == '`'\<close> for a value that is not nullish: a string compares its
  first code unit; an object or array compares its string form; undefined, numbers and
  booleans are never loosely equal to a backtick.\<close>

fun loose_eq_backtick :: "json option \<Rightarrow> bool" where
  "loose_eq_backtick (Some (JStr t)) = (t = [0x60])"
| "loose_eq_backtick (Some (JObj ms)) = (js_to_string (JObj ms) = [0x60])"
| "loose_eq_backtick (Some (JArr vs)) = (js_to_string (JArr vs) = [0x60])"
| "loose_eq_backtick _ = False"

text \<open>Lines 30--32 on a string: drop 7 code units in front and 3 at the end, then every
  code unit outside the class.\<close>

definition sanitize_fenced :: "js_string \<Rightarrow> js_string" where
  "sanitize_fenced response =
     js_replace_class_global sanitizer_keeps (js_substring response 7 (int (length response) - 3))"

text \<open>Lines 29--33 up to the argument of \<^verbatim>\<open>JSON.parse\<close>, which converts a non-string
  argument with \<^verbatim>\<open>String(...)\<close>.\<close>

definition parse_input :: "json \<Rightarrow> attempt_error + js_string" where
  "parse_input response =
     (if loose_eq_backtick (js_get response (js ''0''))
      then (case response of JStr s \<Rightarrow> Inr (sanitize_fenced s) | _ \<Rightarrow> Inl ReadTypeError)
      else Inr (js_to_string response))"

text \<open>The body of the \<^verbatim>\<open>try\<close> block after the request (lines 28--39).\<close>

definition attempt_result :: "json \<Rightarrow> attempt_error + json" where
  "attempt_result body =
     bind_sum (read_content body) (\<lambda>response.
       (case response of
          None \<Rightarrow> Inl ReadTypeError
        | Some v \<Rightarrow>
            (if v = JNull then Inl ReadTypeError
             else
               bind_sum (parse_input v) (\<lambda>subs.
                 (case json_parse subs of
                    Inl _ \<Rightarrow> Inl ParseSyntaxError
                  | Inr result \<Rightarrow> (if is_js_object result then Inr result else Inl NotJsonObject))))))"

definition fetch_attempt :: "post_outcome \<Rightarrow> attempt_error + json" where
  "fetch_attempt out =
     (case out of
        NetworkError m \<Rightarrow> Inl (AxiosError m)
      | Response body \<Rightarrow> attempt_result body)"

subsection \<open>The loop\<close>

function fetch_loop ::
  "network \<Rightarrow> post_request \<Rightarrow> nat \<Rightarrow> 'e event list \<Rightarrow> (fetch_error + json) \<times> 'e event list" where
  "fetch_loop net req attempt evs =
     (if attempt < 3 then
        (let evs1 = evs @ [LogAttempt (attempt + 1), Post req]
         in case fetch_attempt (net req attempt) of
              Inr result \<Rightarrow> (Inr result, evs1)
            | Inl err \<Rightarrow>
                (let evs2 = evs1 @ [LogFailed (attempt + 1) err]
                 in if attempt = 2 then (Inl (FailedAfter3 err), evs2)
                    else fetch_loop net req (attempt + 1) evs2))
      else (Inl UnexpectedError, evs))"
  by pat_completeness auto
termination
  by (relation "measure (\<lambda>(net, req, attempt, evs). 3 - attempt)") auto

declare fetch_loop.simps [simp del]

definition fetchData ::
  "network \<Rightarrow> js_string \<Rightarrow> json \<Rightarrow> (js_string \<times> js_string option) list \<Rightarrow>
   (fetch_error + json) \<times> 'e event list" where
  "fetchData net u d h = fetch_loop net \<lparr>url = u, data = d, headers = h\<rparr> 0 []"

subsection \<open>Specifications\<close>

text \<open>The provider's answer as the specification describes it (section 6):
  \<^verbatim>\<open>{ choices: [ { message: { content: <string> } } ] }\<close>.\<close>

definition choice_envelope :: "js_string \<Rightarrow> json" where
  "choice_envelope s =
     JObj [(js ''choices'', JArr [JObj [(js ''message'', JObj [(js ''content'', JStr s)])]])]"

text \<open>What \<^verbatim>\<open>fetchData\<close> promises, given the outcome \<open>r k\<close> of each of three
  independent tries: the result of the first try that succeeds, or, when none does, the
  failure wrapping the error of the last.\<close>

definition retry_spec :: "(nat \<Rightarrow> attempt_error + json) \<Rightarrow> fetch_error + json" where
  "retry_spec r =
     (case find (\<lambda>k. \<not> isl (r k)) [0, 1, 2] of
        Some k \<Rightarrow> Inr (projr (r k))
      | None \<Rightarrow> Inl (FailedAfter3 (projl (r 2))))"

text \<open>The events of \<open>n\<close> failed attempts, in order.\<close>

definition failed_attempts :: "post_request \<Rightarrow> (nat \<Rightarrow> attempt_error + json) \<Rightarrow> nat \<Rightarrow> 'e event list" where
  "failed_attempts req r n =
     concat (map (\<lambda>j. [LogAttempt (j + 1), Post req, LogFailed (j + 1) (projl (r j))]) [0..<n])"

definition retry_trace :: "post_request \<Rightarrow> (nat \<Rightarrow> attempt_error + json) \<Rightarrow> 'e event list" where
  "retry_trace req r =
     (case find (\<lambda>k. \<not> isl (r k)) [0, 1, 2] of
        Some k \<Rightarrow> failed_attempts req r k @ [LogAttempt (k + 1), Post req]
      | None \<Rightarrow> failed_attempts req r 3)"

subsection \<open>The loop unrolled\<close>

lemma fetch_loop_step:
  assumes "a < 3"
  shows "fetch_loop net req a evs =
     (case fetch_attempt (net req a) of
        Inr v \<Rightarrow> (Inr v, evs @ [LogAttempt (a + 1), Post req])
      | Inl e \<Rightarrow>
          (if a = 2 then (Inl (FailedAfter3 e), evs @ [LogAttempt (a + 1), Post req, LogFailed (a + 1) e])
           else fetch_loop net req (a + 1) (evs @ [LogAttempt (a + 1), Post req, LogFailed (a + 1) e])))"
  using assms by (subst fetch_loop.simps) (simp add: Let_def split: sum.split)

lemma fetchData_unrolled:
  fixes net u d h
  defines "req \<equiv> \<lparr>url = u, data = d, headers = h\<rparr>"
  defines "r \<equiv> \<lambda>k. fetch_attempt (net req k)"
  shows "fetchData net u d h =
     (case r 0 of
        Inr v \<Rightarrow> (Inr v, [LogAttempt 1, Post req])
      | Inl e0 \<Rightarrow>
          (case r 1 of
             Inr v \<Rightarrow> (Inr v, failed_attempts req r 1 @ [LogAttempt 2, Post req])
           | Inl e1 \<Rightarrow>
               (case r 2 of
                  Inr v \<Rightarrow> (Inr v, failed_attempts req r 2 @ [LogAttempt 3, Post req])
                | Inl e2 \<Rightarrow> (Inl (FailedAfter3 e2), failed_attempts req r 3))))"
proof -
  have l2: "fetch_loop net req 2 evs =
     (case r 2 of Inr v \<Rightarrow> (Inr v, evs @ [LogAttempt 3, Post req])
      | Inl e \<Rightarrow> (Inl (FailedAfter3 e), evs @ [LogAttempt 3, Post req, LogFailed 3 e]))" for evs
    by (subst fetch_loop_step) (simp_all add: r_def split: sum.split)
  have l1: "fetch_loop net req 1 evs =
     (case r 1 of Inr v \<Rightarrow> (Inr v, evs @ [LogAttempt 2, Post req])
      | Inl e \<Rightarrow> fetch_loop net req 2 (evs @ [LogAttempt 2, Post req, LogFailed 2 e]))" for evs
    by (subst fetch_loop_step) (simp_all add: r_def numeral_2_eq_2 split: sum.split)
  have l0: "fetch_loop net req 0 [] =
     (case r 0 of Inr v \<Rightarrow> (Inr v, [LogAttempt 1, Post req])
      | Inl e \<Rightarrow> fetch_loop net req 1 [LogAttempt 1, Post req, LogFailed 1 e])"
    by (subst fetch_loop_step) (simp_all add: r_def split: sum.split)
  have f1: "failed_attempts req r 1 = [LogAttempt 1, Post req, LogFailed 1 (projl (r 0))]"
    by (simp add: failed_attempts_def)
  have f2: "failed_attempts req r 2 = failed_attempts req r 1 @ [LogAttempt 2, Post req, LogFailed 2 (projl (r 1))]"
    by (simp add: failed_attempts_def numeral_2_eq_2)
  have f3: "failed_attempts req r 3 = failed_attempts req r 2 @ [LogAttempt 3, Post req, LogFailed 3 (projl (r 2))]"
    by (simp add: failed_attempts_def numeral_3_eq_3 numeral_2_eq_2)
  show ?thesis
    unfolding fetchData_def req_def [symmetric] l0 l1 l2 f3 f2 f1
    by (simp split: sum.split)
qed

subsection \<open>Reading and preparing the content\<close>

text \<open>The key \<^verbatim>\<open>"0"\<close> is the index 0 (a literal \<open>js ''0''\<close> reads \<open>[0x30]\<close>).\<close>

lemma array_index_zero [simp]: "array_index [0x30] = Some 0"
  by (simp add: array_index_def is_digit_def digits_nat_def digit_val_def)

lemma read_content_envelope [simp]: "read_content (choice_envelope s) = Inr (Some (JStr s))"
  by (simp add: read_content_def choice_envelope_def)

lemma js_get_JStr_0: "js_get (JStr s) [0x30] = (if s = [] then None else Some (JStr [hd s]))"
  by (cases s) simp_all

lemma parse_input_plain:
  "js_char_at s 0 \<noteq> Some 0x60 \<Longrightarrow> parse_input (JStr s) = Inr s"
  by (cases s) (simp_all add: parse_input_def js_get_JStr_0 js_char_at_def)

lemma parse_input_fenced:
  "js_char_at s 0 = Some 0x60 \<Longrightarrow> parse_input (JStr s) = Inr (sanitize_fenced s)"
  by (cases s) (simp_all add: parse_input_def js_get_JStr_0 js_char_at_def)

lemma attempt_result_envelope:
  "attempt_result (choice_envelope s) =
     (case json_parse (if js_char_at s 0 = Some 0x60 then sanitize_fenced s else s) of
        Inl _ \<Rightarrow> Inl ParseSyntaxError
      | Inr v \<Rightarrow> (if is_js_object v then Inr v else Inl NotJsonObject))"
  by (simp add: attempt_result_def parse_input_plain parse_input_fenced)

subsection \<open>Properties of fetchData\<close>

lemma failed_attempts_0 [simp]: "failed_attempts req r 0 = []"
  by (simp add: failed_attempts_def)

lemma fetch_attempt_object: "fetch_attempt out = Inr v \<Longrightarrow> is_js_object v"
  by (auto simp: fetch_attempt_def attempt_result_def bind_sum_def
      split: post_outcome.splits sum.splits option.splits if_splits)

lemma fetchData_object: "fst (fetchData net u d h) = Inr v \<Longrightarrow> is_js_object v"
  by (auto simp: fetchData_unrolled split: sum.splits dest: fetch_attempt_object)

lemma filter_posts_failed_attempts:
  "filter (\<lambda>ev. case ev of Post r \<Rightarrow> True | _ \<Rightarrow> False) (failed_attempts req r n) = replicate n (Post req)"
  by (induction n) (simp_all add: failed_attempts_def replicate_append_same)

lemma failed_attempts_cong:
  "(\<And>k. k < n \<Longrightarrow> r k = r' k) \<Longrightarrow> failed_attempts req r n = failed_attempts req r' n"
  unfolding failed_attempts_def by (intro arg_cong [where f = concat] map_cong) simp_all

text \<open>When the three tries all fail with the same error, the loop runs to its end.\<close>

lemma fetchData_all_fail:
  assumes "\<And>k. k < 3 \<Longrightarrow> fetch_attempt (net \<lparr>url = u, data = d, headers = h\<rparr> k) = Inl err"
  shows "fetchData net u d h =
     (Inl (FailedAfter3 err), failed_attempts \<lparr>url = u, data = d, headers = h\<rparr> (\<lambda>k. Inl err) 3)"
proof -
  have "failed_attempts \<lparr>url = u, data = d, headers = h\<rparr> (\<lambda>k. fetch_attempt (net \<lparr>url = u, data = d, headers = h\<rparr> k)) 3 =
      failed_attempts \<lparr>url = u, data = d, headers = h\<rparr> (\<lambda>k. Inl err) 3"
    by (rule failed_attempts_cong) (rule assms)
  then show ?thesis
    using assms [of 0] assms [of 1] assms [of 2] by (simp add: fetchData_unrolled)
qed

lemma fetch_attempt_missing_content:
  "read_content body = Inr None \<Longrightarrow> fetch_attempt (Response body) = Inl ReadTypeError"
  by (simp add: fetch_attempt_def attempt_result_def)

text \<open>
  C1: \<^verbatim>\<open>fetchData\<close> implements its contract: its result is that of the first of
  three tries that succeeds, and when all three fail, the error of the third wrapped in
  \<^verbatim>\<open>Failed after 3 attempts\<close>.
\<close>

theorem fetchData_refines_retry_spec:
  "fst (fetchData net u d h) =
     retry_spec (\<lambda>k. fetch_attempt (net \<lparr>url = u, data = d, headers = h\<rparr> k))"
  by (simp add: fetchData_unrolled retry_spec_def split: sum.split)

text \<open>
  C4: the effects of \<^verbatim>\<open>fetchData\<close> are sequential: each attempt logs its number, posts
  the request once, and logs its failure before the next attempt starts; it stops after the
  first success and never posts more than three times.
\<close>

theorem fetchData_trace:
  "snd (fetchData net u d h) =
     retry_trace \<lparr>url = u, data = d, headers = h\<rparr>
       (\<lambda>k. fetch_attempt (net \<lparr>url = u, data = d, headers = h\<rparr> k))"
  by (simp add: fetchData_unrolled retry_trace_def split: sum.split)

text \<open>
  C14: the statement after the loop (line 50, \<^verbatim>\<open>Unexpected error\<close>) is never reached, as
  its comment says.
\<close>

theorem fetchData_never_unexpected: "fst (fetchData net u d h) \<noteq> Inl UnexpectedError"
  by (simp add: fetchData_unrolled split: sum.split)

text \<open>
  C19: an answer whose content is valid unfenced JSON for an object is returned by the
  first attempt, with no failure logged and a single request.
\<close>

theorem fetchData_first_attempt:
  assumes "net \<lparr>url = u, data = d, headers = h\<rparr> 0 = Response (choice_envelope s)"
    and "js_char_at s 0 \<noteq> Some 0x60" and "json_parse s = Inr v" and "is_js_object v"
  shows "fetchData net u d h = (Inr v, [LogAttempt 1, Post \<lparr>url = u, data = d, headers = h\<rparr>])"
  using assms by (simp add: fetchData_unrolled fetch_attempt_def attempt_result_envelope)

theorem fetchData_first_attempt_witness:
  "fetchData (\<lambda>req k. Response (choice_envelope (js ''{\"a\":1}''))) [] JNull [] =
     (Inr (JObj [(js ''a'', JNum 1)]), [LogAttempt 1, Post \<lparr>url = [], data = JNull, headers = []\<rparr>])"
proof -
  have "json_parse (js ''{\"a\":1}'') = Inr (JObj [(js ''a'', JNum 1)])" by code_simp
  then show ?thesis
    by (intro fetchData_first_attempt) (simp_all add: js_char_at_def)
qed

text \<open>
  C20: when every attempt answers a JSON value that is not an object (a number, say), the
  helper fails with \<^verbatim>\<open>Failed after 3 attempts: Response is not a valid JSON object\<close>.
\<close>

theorem fetchData_non_object:
  assumes "\<forall>k<3. net \<lparr>url = u, data = d, headers = h\<rparr> k = Response (choice_envelope s)"
    and "js_char_at s 0 \<noteq> Some 0x60" and "json_parse s = Inr v" and "\<not> is_js_object v"
  shows "fst (fetchData net u d h) = Inl (FailedAfter3 NotJsonObject) \<and>
         fetch_error_message (FailedAfter3 NotJsonObject) =
           Some (js ''Failed after 3 attempts: Response is not a valid JSON object'')"
  using assms by (simp add: fetchData_unrolled fetch_attempt_def attempt_result_envelope)

theorem fetchData_non_object_witness:
  "fst (fetchData (\<lambda>req k. Response (choice_envelope (js ''5''))) [] JNull []) =
     Inl (FailedAfter3 NotJsonObject)"
proof -
  have "json_parse (js ''5'') = Inr (JNum 5)" by code_simp
  then show ?thesis
    using fetchData_non_object [of "\<lambda>req k. Response (choice_envelope (js ''5''))" "[]" JNull "[]"
        "js ''5''" "JNum 5"]
    by (simp add: js_char_at_def)
qed

text \<open>
  C21: when no answer carries a content (an empty \<^verbatim>\<open>choices\<close> array, a choice without
  a message, a message without content), the read \<^verbatim>\<open>response[0]\<close> of line 30 throws a
  \<^verbatim>\<open>TypeError\<close> on each attempt; every failure is logged, the request is posted three
  times, and the helper fails with that error after the third.
\<close>

theorem fetchData_missing_content:
  assumes "\<forall>k<3. \<exists>body. net \<lparr>url = u, data = d, headers = h\<rparr> k = Response body \<and> read_content body = Inr None"
  shows "fetchData net u d h =
     (Inl (FailedAfter3 ReadTypeError),
      failed_attempts \<lparr>url = u, data = d, headers = h\<rparr> (\<lambda>k. Inl ReadTypeError) 3)"
proof (rule fetchData_all_fail)
  fix k :: nat
  assume "k < 3"
  with assms obtain body where "net \<lparr>url = u, data = d, headers = h\<rparr> k = Response body"
    and "read_content body = Inr None" by auto
  then show "fetch_attempt (net \<lparr>url = u, data = d, headers = h\<rparr> k) = Inl ReadTypeError"
    by (simp add: fetch_attempt_missing_content)
qed

theorem fetchData_missing_content_witness:
  "fetchData (\<lambda>req k. Response (JObj [(js ''choices'', JArr [])])) [] JNull [] =
     (Inl (FailedAfter3 ReadTypeError),
      failed_attempts \<lparr>url = [], data = JNull, headers = []\<rparr> (\<lambda>k. Inl ReadTypeError) 3)"
  by (rule fetchData_missing_content) (simp add: read_content_def)

text \<open>
  C22: on a fenced content of at least ten code units the sanitizer drops exactly the first
  seven and the last three, then the code units outside its class.
\<close>

theorem sanitize_fenced_strips:
  assumes "10 \<le> length s"
  shows "sanitize_fenced s = filter sanitizer_keeps (take (length s - 10) (drop 7 s))"
proof -
  have "nat (int (length s) - 3) - 7 = length s - 10" using assms by arith
  with assms show ?thesis
    by (simp add: sanitize_fenced_def js_substring_def js_clamp_def js_replace_class_global_def)
qed

theorem sanitize_fenced_strips_witness:
  "sanitize_fenced (js ''```json\<newline>{\"a\": 1}\<newline>```'') = js ''\<newline>{\"a\": 1}\<newline>''"
proof -
  have "10 \<le> length (js ''```json\<newline>{\"a\": 1}\<newline>```'')" by simp
  then have "sanitize_fenced (js ''```json\<newline>{\"a\": 1}\<newline>```'') =
      filter sanitizer_keeps (take 10 (drop 7 (js ''```json\<newline>{\"a\": 1}\<newline>```'')))"
    by (simp only: sanitize_fenced_strips) simp
  then show ?thesis by (simp add: sanitizer_keeps_def is_word_char_def is_space_char_def)
qed

lemma sanitize_fenced_no_point_minus: "set (sanitize_fenced s) \<inter> {0x2E, 0x2D} = {}"
proof -
  have "\<not> sanitizer_keeps 0x2E" "\<not> sanitizer_keeps 0x2D"
    by (simp_all add: sanitizer_keeps_def is_word_char_def is_space_char_def)
  then show ?thesis by (auto simp: sanitize_fenced_def js_replace_class_global_def)
qed

text \<open>
  C8: the sanitizer of fenced answers deletes every decimal point and minus sign, so a fenced
  answer that parses never carries a fraction or a negative number: every number in it is
  a natural number.  A rating of 4.5 is read as 45, while the same answer unfenced reads 4.5.
\<close>

theorem fenced_numbers_natural:
  assumes "js_char_at s 0 = Some 0x60" and "attempt_result (choice_envelope s) = Inr v"
  shows "nat_numbers v"
proof -
  from assms have "json_parse (sanitize_fenced s) = Inr v"
    by (auto simp: attempt_result_envelope split: sum.splits if_splits)
  then show ?thesis using sanitize_fenced_no_point_minus by (rule json_parse_nat_numbers)
qed

theorem fenced_numbers_natural_witness:
  "attempt_result (choice_envelope (js ''```json\<newline>{\"rating\": 4.5}\<newline>```'')) =
     Inr (JObj [(js ''rating'', JNum 45)]) \<and>
   attempt_result (choice_envelope (js ''{\"rating\": 4.5}'')) =
     Inr (JObj [(js ''rating'', JNum (9 / 2))]) \<and>
   nat_numbers (JObj [(js ''rating'', JNum 45)])"
proof -
  have a: "attempt_result (choice_envelope (js ''```json\<newline>{\"rating\": 4.5}\<newline>```'')) =
     Inr (JObj [(js ''rating'', JNum 45)])" by code_simp
  have b: "attempt_result (choice_envelope (js ''{\"rating\": 4.5}'')) =
     Inr (JObj [(js ''rating'', JNum (9 / 2))])" by code_simp
  have "js_char_at (js ''```json\<newline>{\"rating\": 4.5}\<newline>```'') 0 = Some 0x60"
    by (simp add: js_char_at_def)
  from fenced_numbers_natural [OF this a] a b show ?thesis by simp
qed

lemma ex_less_3: "(\<exists>k::nat<3. P k) \<longleftrightarrow> P 0 \<or> P 1 \<or> P 2"
  by (auto simp: numeral_3_eq_3 numeral_2_eq_2 less_Suc_eq)

text \<open>
  C18: every run of \<^verbatim>\<open>fetchData\<close> posts between one and three times, and every post
  carries the same request: the url, the payload and the headers it was called with.
\<close>

theorem fetchData_posts:
  "\<exists>n. 1 \<le> n \<and> n \<le> 3 \<and>
     filter (\<lambda>ev. case ev of Post r \<Rightarrow> True | _ \<Rightarrow> False) (snd (fetchData net u d h)) =
       replicate n (Post \<lparr>url = u, data = d, headers = h\<rparr>)"
proof -
  let ?r = "\<lambda>k. fetch_attempt (net \<lparr>url = u, data = d, headers = h\<rparr> k)"
  have "\<exists>n \<in> {1, 2, 3}. filter (\<lambda>ev. case ev of Post r \<Rightarrow> True | _ \<Rightarrow> False) (snd (fetchData net u d h)) =
       replicate n (Post \<lparr>url = u, data = d, headers = h\<rparr>)"
    by (cases "?r 0"; cases "?r 1"; cases "?r 2")
      (simp_all add: fetchData_unrolled filter_posts_failed_attempts replicate_append_same
        numeral_2_eq_2 numeral_3_eq_3)
  then show ?thesis by auto
qed

text \<open>
  C11: the retries make \<^verbatim>\<open>fetchData\<close> succeed whenever one of its three tries would: it
  returns a value exactly when some attempt among the first three yields a JSON object.
\<close>

theorem fetchData_succeeds_iff:
  "\<not> isl (fst (fetchData net u d h)) \<longleftrightarrow>
   (\<exists>k<3. \<not> isl (fetch_attempt (net \<lparr>url = u, data = d, headers = h\<rparr> k)))"
  unfolding ex_less_3
  by (simp add: fetchData_unrolled split: sum.split)

end
