(* ===== verification/Requests.thy ===== *)
theory Requests
  imports Days Fetch
begin

text \<open>
  The three domain request functions of tripPlan.ts: \<^verbatim>\<open>generateItinerary\<close>
  (lines 53--83), \<^verbatim>\<open>getBestEateries\<close> (lines 85--114) and \<^verbatim>\<open>getFaqs\<close>
  (lines 116--143).  Each builds the body \<^verbatim>\<open>{ replacements: {...}, promptid }\<close> from
  the form input, the headers from the process configuration, and calls
  \<^verbatim>\<open>fetchData\<close>.  The body is the JSON value \<^verbatim>\<open>axios\<close> serialises, members in the
  order of the object literal.  The source writes the replacements object out three times;
  the model keeps the three copies.
\<close>

record travel_dates =
  startDate :: js_date
  endDate :: js_date

record TravelFormSchema =
  destination :: js_string
  travelDates :: travel_dates
  numberOfPeople :: int
  travelCompanions :: js_string
  travelType :: js_string
  keyInterests :: "js_string list"
  budget :: js_string

text \<open>The process-wide configuration read at lines 75, 106 and 135; undefined is \<open>None\<close>
  (the non-null assertion \<^verbatim>\<open>!\<close> has no run-time effect).\<close>

record process_env =
  HYPERLEAP_API_KEY :: "js_string option"

definition prompts_url :: js_string where
  "prompts_url = js ''https://api.hyperleap.ai/prompts''"

definition itinerary_promptid :: js_string where
  "itinerary_promptid = js ''19e373ea-0b75-47a2-9eae-6f36d2ffd7c8''"

definition eateries_promptid :: js_string where
  "eateries_promptid = js ''23b99371-a215-4ed5-95a7-898472b1c0ed''"

definition faqs_promptid :: js_string where
  "faqs_promptid = js ''70111cfb-c8f2-4adf-b487-fd410b805abc''"

subsection \<open>Request bodies, as written in each function\<close>

definition itinerary_data :: "TravelFormSchema \<Rightarrow> json" where
  "itinerary_data input =
     JObj [(js ''replacements'', JObj [
             (js ''dest'', JStr (destination input)),
             (js ''days'', JNum (of_int (getNumberOfDays
                 (startDate (travelDates input)) (endDate (travelDates input))))),
             (js ''people'', JNum (of_int (numberOfPeople input))),
             (js ''companion'', JStr (travelCompanions input)),
             (js ''type'', JStr (travelType input)),
             (js ''interests'', JStr (js_join (js '', '') (keyInterests input))),
             (js ''budget'', JStr (budget input))]),
           (js ''promptid'', JStr itinerary_promptid)]"

definition eateries_data :: "TravelFormSchema \<Rightarrow> json" where
  "eateries_data input =
     JObj [(js ''replacements'', JObj [
             (js ''dest'', JStr (destination input)),
             (js ''days'', JNum (of_int (getNumberOfDays
                 (startDate (travelDates input)) (endDate (travelDates input))))),
             (js ''people'', JNum (of_int (numberOfPeople input))),
             (js ''companion'', JStr (travelCompanions input)),
             (js ''type'', JStr (travelType input)),
             (js ''interests'', JStr (js_join (js '', '') (keyInterests input))),
             (js ''budget'', JStr (budget input))]),
           (js ''promptid'', JStr eateries_promptid)]"

definition faqs_data :: "TravelFormSchema \<Rightarrow> json" where
  "faqs_data input =
     JObj [(js ''replacements'', JObj [
             (js ''dest'', JStr (destination input)),
             (js ''days'', JNum (of_int (getNumberOfDays
                 (startDate (travelDates input)) (endDate (travelDates input))))),
             (js ''people'', JNum (of_int (numberOfPeople input))),
             (js ''companion'', JStr (travelCompanions input)),
             (js ''type'', JStr (travelType input)),
             (js ''interests'', JStr (js_join (js '', '') (keyInterests input))),
             (js ''budget'', JStr (budget input))]),
           (js ''promptid'', JStr faqs_promptid)]"

text \<open>The headers object of lines 73--76 (and its two copies).\<close>

definition api_headers :: "process_env \<Rightarrow> (js_string \<times> js_string option) list" where
  "api_headers env =
     [(js ''Content-Type'', Some (js ''application/json'')),
      (js ''x-hl-api-key'', HYPERLEAP_API_KEY env)]"

subsection \<open>The request functions\<close>

definition generateItinerary ::
  "network \<Rightarrow> process_env \<Rightarrow> TravelFormSchema \<Rightarrow> (fetch_error + json) \<times> 'e event list" where
  "generateItinerary net env input =
     (let (r, evs) = fetchData net prompts_url (itinerary_data input) (api_headers env)
      in (r, LogInside # evs))"

definition getBestEateries ::
  "network \<Rightarrow> process_env \<Rightarrow> TravelFormSchema \<Rightarrow> (fetch_error + json) \<times> 'e event list" where
  "getBestEateries net env input = fetchData net prompts_url (eateries_data input) (api_headers env)"

definition getFaqs ::
  "network \<Rightarrow> process_env \<Rightarrow> TravelFormSchema \<Rightarrow> (fetch_error + json) \<times> 'e event list" where
  "getFaqs net env input = fetchData net prompts_url (faqs_data input) (api_headers env)"

subsection \<open>Lemmas\<close>

lemma js_join_from_merge:
  "js_join_from sep f (xs @ (a @ sep @ b) # ys) = js_join_from sep f (xs @ a # b # ys)"
  by (induction xs arbitrary: f) simp_all

subsection \<open>Properties of the request bodies\<close>

text \<open>
  C27: the request bodies lose the list structure of the interests: joining two adjacent
  interests into one with \<^verbatim>\<open>", "\<close> between them gives each of the three functions
  exactly the same body, for every input.
\<close>

theorem request_bodies_interests_merge:
  "list_all (\<lambda>body. body (input\<lparr>keyInterests := xs @ (a @ js '', '' @ b) # ys\<rparr>) =
                    body (input\<lparr>keyInterests := xs @ a # b # ys\<rparr>))
     [itinerary_data, eateries_data, faqs_data]"
  using js_join_from_merge [of "js '', ''" True xs a b ys]
  by (simp add: itinerary_data_def eateries_data_def faqs_data_def js_join_def del: js_Cons)

end
