(* ===== verification/Orchestrator.thy ===== *)
theory Orchestrator
  imports Requests
begin

text \<open>
  \<^verbatim>\<open>generateFullTravelPlan\<close> (tripPlan.ts, lines 145--181).  One run connects to the
  database, launches the three request functions and \<^verbatim>\<open>getPopularDestinations\<close>
  together, waits for all of them with \<^verbatim>\<open>Promise.all\<close>, draws an identifier with
  \<^verbatim>\<open>uuidv4\<close>, builds the plan record and stores it with \<^verbatim>\<open>ItineraryModel.create\<close>.
  Any error is logged and replaced by one generic error.

  The collaborators outside the file are the environment of a run: whether
  \<^verbatim>\<open>dbConnect\<close> and \<^verbatim>\<open>create\<close> succeed, the answer of
  \<^verbatim>\<open>getPopularDestinations\<close>, the network, the configuration, and the order in which
  the four promises settle, which decides the reason \<^verbatim>\<open>Promise.all\<close> rejects with.
  The persistent state is the world: the stored plans in insertion order, the identifiers
  drawn so far from a source of identifiers, and the console lines of the orchestrator.
  The four branches share nothing but the input, so each keeps its own trace of effects;
  the model returns the three traces of the request functions beside the world.
\<close>

type_synonym uuid = js_string

record travel_plan =
  uuid :: uuid
  plan_destination :: js_string
  plan_travelDates :: travel_dates
  plan_budget :: js_string
  plan_travelType :: js_string
  plan_keyInterests :: "js_string list"
  plan_numberOfPeople :: int
  plan_travelCompanions :: js_string
  itinerary :: "json option"
  eateries :: json
  faqs :: json
  popularDestinations :: json

text \<open>Why a branch of \<^verbatim>\<open>Promise.all\<close> rejects, and what the \<^verbatim>\<open>catch\<close> block logs.\<close>

datatype branch_error = FetchFailed fetch_error | PopularFailed js_string

datatype root_cause =
    DbConnectFailed
  | BranchFailed branch_error
  | DaysTypeError
  | CreateFailed

datatype plan_error = FullPlanFailed

record run_env =
  http :: network
  penv :: process_env
  connect_ok :: bool
  popular :: "js_string \<Rightarrow> js_string + json"
  settle_order :: "nat list"
  create_ok :: "travel_plan \<Rightarrow> bool"

record world =
  db :: "travel_plan list"
  uuid_source :: "nat \<Rightarrow> uuid"
  issued :: nat
  console :: "root_cause event list"

subsection \<open>Promise.all\<close>

text \<open>
  \<^verbatim>\<open>Promise.all(ps)\<close> over settled results: all values, in the positions of their
  promises, when every promise fulfils; otherwise the reason of the first promise to reject
  in the order of settlement (an order that does not name a rejected position falls back
  to the positions themselves).
\<close>

definition promise_all :: "nat list \<Rightarrow> ('e + 'a) list \<Rightarrow> 'e + 'a list" where
  "promise_all order rs =
     (if list_all (\<lambda>r. \<not> isl r) rs then Inr (map projr rs)
      else Inl (projl (rs ! hd (filter (\<lambda>i. i < length rs \<and> isl (rs ! i))
                                   (order @ [0..<length rs])))))"

subsection \<open>One run\<close>

definition plan_failure :: "root_cause \<Rightarrow> world \<Rightarrow> 'b list \<Rightarrow> (plan_error + uuid) \<times> world \<times> 'b list" where
  "plan_failure c w tr = (Inl FullPlanFailed, w\<lparr>console := console w @ [LogPlanError c]\<rparr>, tr)"

text \<open>\<^verbatim>\<open>itinerary.days\<close>: a property read, which throws on \<^verbatim>\<open>null\<close>.\<close>

definition days_of :: "json \<Rightarrow> root_cause + json option" where
  "days_of it = (if it = JNull then Inl DaysTypeError else Inr (js_get it (js ''days'')))"

text \<open>The object literal of lines 157--170.\<close>

definition make_plan ::
  "uuid \<Rightarrow> TravelFormSchema \<Rightarrow> json option \<Rightarrow> json \<Rightarrow> json \<Rightarrow> json \<Rightarrow> travel_plan" where
  "make_plan u input ds ea fq pd =
     \<lparr>uuid = u,
      plan_destination = destination input,
      plan_travelDates = travelDates input,
      plan_budget = budget input,
      plan_travelType = travelType input,
      plan_keyInterests = keyInterests input,
      plan_numberOfPeople = numberOfPeople input,
      plan_travelCompanions = travelCompanions input,
      itinerary = ds,
      eateries = ea,
      faqs = fq,
      popularDestinations = pd\<rparr>"

definition generateFullTravelPlan ::
  "run_env \<Rightarrow> TravelFormSchema \<Rightarrow> world \<Rightarrow>
   (plan_error + uuid) \<times> world \<times> root_cause event list list" where
  "generateFullTravelPlan e input w =
     (if \<not> connect_ok e then plan_failure DbConnectFailed w []
      else
        (let (r1, t1) = generateItinerary (http e) (penv e) input;
             (r2, t2) = getBestEateries (http e) (penv e) input;
             (r3, t3) = getFaqs (http e) (penv e) input;
             r4 = popular e (destination input);
             traces = [t1, t2, t3]
         in case promise_all (settle_order e)
                   [map_sum FetchFailed id r1, map_sum FetchFailed id r2,
                    map_sum FetchFailed id r3, map_sum PopularFailed id r4] of
              Inl cause \<Rightarrow> plan_failure (BranchFailed cause) w traces
            | Inr vs \<Rightarrow>
                (let u = uuid_source w (issued w);
                     w1 = w\<lparr>issued := Suc (issued w)\<rparr>
                 in case days_of (vs ! 0) of
                      Inl c \<Rightarrow> plan_failure c w1 traces
                    | Inr ds \<Rightarrow>
                        (let plan = make_plan u input ds (vs ! 1) (vs ! 2) (vs ! 3)
                         in if create_ok e plan
                            then (Inr u, w1\<lparr>db := db w1 @ [plan], console := console w1 @ [LogSaved u]\<rparr>,
                                  traces)
                            else plan_failure CreateFailed w1 traces))))"

subsection \<open>Specification helpers\<close>

text \<open>The settled results and the traces of the four launched branches.\<close>

definition branch_results :: "run_env \<Rightarrow> TravelFormSchema \<Rightarrow> (branch_error + json) list" where
  "branch_results e input =
     [map_sum FetchFailed id (fst (generateItinerary (http e) (penv e) input :: _ \<times> root_cause event list)),
      map_sum FetchFailed id (fst (getBestEateries (http e) (penv e) input :: _ \<times> root_cause event list)),
      map_sum FetchFailed id (fst (getFaqs (http e) (penv e) input :: _ \<times> root_cause event list)),
      map_sum PopularFailed id (popular e (destination input))]"

definition branch_traces :: "run_env \<Rightarrow> TravelFormSchema \<Rightarrow> root_cause event list list" where
  "branch_traces e input =
     [snd (generateItinerary (http e) (penv e) input),
      snd (getBestEateries (http e) (penv e) input),
      snd (getFaqs (http e) (penv e) input)]"

text \<open>The identifiers of the \<^verbatim>\<open>Travel plan saved\<close> lines of a console, in order.\<close>

definition saved_ids :: "'e event list \<Rightarrow> uuid list" where
  "saved_ids evs = concat (map (\<lambda>ev. case ev of LogSaved u \<Rightarrow> [u] | _ \<Rightarrow> []) evs)"

subsection \<open>Runs from the empty database\<close>

text \<open>The worlds reached from an empty database by any sequence of runs, each with any
  input and any behaviour of the collaborators.\<close>

inductive reachable :: "(nat \<Rightarrow> uuid) \<Rightarrow> world \<Rightarrow> bool" for src where
  start: "reachable src \<lparr>db = [], uuid_source = src, issued = 0, console = []\<rparr>"
| run: "reachable src w \<Longrightarrow> generateFullTravelPlan e input w = (r, w', trs) \<Longrightarrow> reachable src w'"

definition plans_inv :: "world \<Rightarrow> bool" where
  "plans_inv w \<longleftrightarrow>
     distinct (map uuid (db w)) \<and> set (map uuid (db w)) \<subseteq> uuid_source w ` {..<issued w}"

text \<open>The shape of a stored plan that the code relies on: the eateries and the FAQs are
  JSON objects (or arrays).\<close>

definition plan_typed :: "travel_plan \<Rightarrow> bool" where
  "plan_typed p \<longleftrightarrow> is_js_object (eateries p) \<and> is_js_object (faqs p)"

subsection \<open>Example run\<close>

text \<open>A concrete run used by the witnesses: every collaborator succeeds, the provider
  answers \<^verbatim>\<open>{"days":[]}\<close>, and the identifiers are \<open>""\<close>, \<open>"a"\<close>, \<open>"aa"\<close>, ...\<close>

definition example_env :: run_env where
  "example_env =
     \<lparr>http = (\<lambda>req k. Response (choice_envelope (js ''{\"days\":[]}''))),
      penv = \<lparr>HYPERLEAP_API_KEY = Some (js ''key'')\<rparr>, connect_ok = True,
      popular = (\<lambda>d. Inr (JArr [])), settle_order = [0, 1, 2, 3], create_ok = (\<lambda>p. True)\<rparr>"

definition example_input :: TravelFormSchema where
  "example_input =
     \<lparr>destination = js ''Paris'', travelDates = \<lparr>startDate = 1704067200000, endDate = 1704412800000\<rparr>,
      numberOfPeople = 2, travelCompanions = js ''Couple'', travelType = js ''Leisure'',
      keyInterests = [js ''art'', js ''food''], budget = js ''Moderate''\<rparr>"

definition example_source :: "nat \<Rightarrow> uuid" where
  "example_source n = replicate n 0x61"

definition example_world :: world where
  "example_world = \<lparr>db = [], uuid_source = example_source, issued = 0, console = []\<rparr>"

subsection \<open>Unfolding a run\<close>

lemma uuid_make_plan [simp]: "uuid (make_plan u input ds ea fq pd) = u"
  by (simp add: make_plan_def)

lemma generateFullTravelPlan_unfold:
  "generateFullTravelPlan e input w =
     (if \<not> connect_ok e then plan_failure DbConnectFailed w []
      else case promise_all (settle_order e) (branch_results e input) of
             Inl cause \<Rightarrow> plan_failure (BranchFailed cause) w (branch_traces e input)
           | Inr vs \<Rightarrow>
               (case days_of (vs ! 0) of
                  Inl c \<Rightarrow> plan_failure c (w\<lparr>issued := Suc (issued w)\<rparr>) (branch_traces e input)
                | Inr ds \<Rightarrow>
                    (let plan = make_plan (uuid_source w (issued w)) input ds (vs ! 1) (vs ! 2) (vs ! 3)
                     in if create_ok e plan
                        then (Inr (uuid_source w (issued w)),
                              w\<lparr>issued := Suc (issued w), db := db w @ [plan],
                                console := console w @ [LogSaved (uuid_source w (issued w))]\<rparr>,
                              branch_traces e input)
                        else plan_failure CreateFailed (w\<lparr>issued := Suc (issued w)\<rparr>) (branch_traces e input))))"
  unfolding generateFullTravelPlan_def branch_results_def branch_traces_def split_def Let_def
  by (simp split: sum.split)

lemma promise_all_Inr: "promise_all order rs = Inr vs \<longleftrightarrow> list_all (\<lambda>r. \<not> isl r) rs \<and> vs = map projr rs"
  by (auto simp: promise_all_def)

lemma promise_all_first_rejection:
  assumes "order = pre @ i # post" and "i < length rs" and "isl (rs ! i)"
    and "\<forall>j \<in> set pre. \<not> (j < length rs \<and> isl (rs ! j))"
  shows "promise_all order rs = Inl (projl (rs ! i))"
proof -
  have "\<not> list_all (\<lambda>r. \<not> isl r) rs" using assms(2,3) by (auto simp: list_all_length)
  moreover have "filter (\<lambda>j. j < length rs \<and> isl (rs ! j)) (order @ [0..<length rs]) =
      i # filter (\<lambda>j. j < length rs \<and> isl (rs ! j)) (post @ [0..<length rs])"
    using assms(1,2,3,4) by (simp add: filter_empty_conv)
  ultimately show ?thesis by (simp add: promise_all_def)
qed

lemma days_of_object: "is_js_object it \<Longrightarrow> days_of it = Inr (js_get it (js ''days''))"
  by (cases it) (simp_all add: days_of_def)

lemma generateItinerary_object: "fst (generateItinerary net env input) = Inr v \<Longrightarrow> is_js_object v"
  by (auto simp: generateItinerary_def split_def Let_def dest: fetchData_object)

lemma branch_results_first_object:
  "branch_results e input = [Inr it, Inr ea, Inr fq, Inr pd] \<Longrightarrow> is_js_object it"
  by (auto simp: branch_results_def map_sum_def split: sum.splits dest: generateItinerary_object)

lemma promise_all_four:
  "promise_all order [a, b, c, d] = Inr vs \<longleftrightarrow>
   (\<exists>x y z t. a = Inr x \<and> b = Inr y \<and> c = Inr z \<and> d = Inr t \<and> vs = [x, y, z, t])"
  by (cases a; cases b; cases c; cases d) (simp_all add: promise_all_Inr)

lemma branch_results_length [simp]: "length (branch_results e input) = 4"
  by (simp add: branch_results_def)

lemma branch_results_all_Inr:
  "promise_all order (branch_results e input) = Inr vs \<longleftrightarrow>
   (\<exists>it ea fq pd. branch_results e input = [Inr it, Inr ea, Inr fq, Inr pd] \<and> vs = [it, ea, fq, pd])"
  unfolding branch_results_def promise_all_four by auto

text \<open>
  C2: a run returns an identifier exactly when the database connects, all four branches
  fulfil and \<^verbatim>\<open>ItineraryModel.create\<close> accepts the plan built from them; the identifier
  is the next one drawn from the source, and the plan stores \<^verbatim>\<open>itinerary.days\<close>.
\<close>

theorem generateFullTravelPlan_succeeds_iff:
  "fst (generateFullTravelPlan e input w) = Inr u \<longleftrightarrow>
   connect_ok e \<and> u = uuid_source w (issued w) \<and>
   (\<exists>it ea fq pd. branch_results e input = [Inr it, Inr ea, Inr fq, Inr pd] \<and>
      create_ok e (make_plan u input (js_get it (js ''days'')) ea fq pd))"
proof (cases "connect_ok e")
  case False
  then show ?thesis by (simp add: generateFullTravelPlan_unfold plan_failure_def)
next
  case True
  show ?thesis
  proof (cases "promise_all (settle_order e) (branch_results e input)")
    case (Inl c)
    then have "\<not> (\<exists>it ea fq pd. branch_results e input = [Inr it, Inr ea, Inr fq, Inr pd])"
      by (auto simp: promise_all_def)
    with True Inl show ?thesis by (simp add: generateFullTravelPlan_unfold plan_failure_def)
  next
    case (Inr vs)
    then obtain it ea fq pd where br: "branch_results e input = [Inr it, Inr ea, Inr fq, Inr pd]"
      and vs: "vs = [it, ea, fq, pd]"
      using branch_results_all_Inr by blast
    have "days_of it = Inr (js_get it (js ''days''))"
      using branch_results_first_object [OF br] by (rule days_of_object)
    with True Inr br vs show ?thesis
      by (auto simp: generateFullTravelPlan_unfold plan_failure_def Let_def)
  qed
qed

lemma generateFullTravelPlan_cases:
  assumes run: "generateFullTravelPlan e input w = (r, w', trs)"
  obtains (fail) c where "r = Inl FullPlanFailed" "c \<noteq> DaysTypeError"
      "w' = w\<lparr>issued := issued w', console := console w @ [LogPlanError c]\<rparr>"
      "issued w' = issued w \<or> issued w' = Suc (issued w)"
  | (ok) it ea fq pd where "connect_ok e"
      "branch_results e input = [Inr it, Inr ea, Inr fq, Inr pd]"
      "create_ok e (make_plan (uuid_source w (issued w)) input (js_get it (js ''days'')) ea fq pd)"
      "r = Inr (uuid_source w (issued w))"
      "w' = w\<lparr>issued := Suc (issued w),
              db := db w @ [make_plan (uuid_source w (issued w)) input (js_get it (js ''days'')) ea fq pd],
              console := console w @ [LogSaved (uuid_source w (issued w))]\<rparr>"
proof (cases "connect_ok e")
  case False
  with run show ?thesis
    by (intro fail [of DbConnectFailed]) (auto simp: generateFullTravelPlan_unfold plan_failure_def)
next
  case True
  show ?thesis
  proof (cases "promise_all (settle_order e) (branch_results e input)")
    case (Inl c)
    with True run show ?thesis
      by (intro fail [of "BranchFailed c"]) (auto simp: generateFullTravelPlan_unfold plan_failure_def)
  next
    case (Inr vs)
    then obtain it ea fq pd where br: "branch_results e input = [Inr it, Inr ea, Inr fq, Inr pd]"
      and vs: "vs = [it, ea, fq, pd]"
      using branch_results_all_Inr by blast
    have days: "days_of it = Inr (js_get it (js ''days''))"
      using branch_results_first_object [OF br] by (rule days_of_object)
    show ?thesis
    proof (cases "create_ok e (make_plan (uuid_source w (issued w)) input (js_get it (js ''days'')) ea fq pd)")
      case False
      with True Inr vs days run show ?thesis
        by (intro fail [of CreateFailed]) (auto simp: generateFullTravelPlan_unfold plan_failure_def Let_def)
    next
      case c: True
      with True Inr vs days run br show ?thesis
        by (intro ok [of it ea fq pd]) (auto simp: generateFullTravelPlan_unfold Let_def)
    qed
  qed
qed

text \<open>
  C3: a run is all or nothing: a failure leaves the stored plans unchanged and logs one
  error line, a success stores exactly one plan, under the returned identifier, and logs
  it as saved.
\<close>

theorem generateFullTravelPlan_all_or_nothing:
  assumes "generateFullTravelPlan e input w = (r, w', trs)"
  shows "(case r of
            Inl err \<Rightarrow> err = FullPlanFailed \<and> db w' = db w \<and> (\<exists>c. console w' = console w @ [LogPlanError c])
          | Inr u \<Rightarrow> (\<exists>p. db w' = db w @ [p] \<and> uuid p = u) \<and> console w' = console w @ [LogSaved u])"
  using assms
proof (cases rule: generateFullTravelPlan_cases)
  case (fail c)
  then show ?thesis by (cases w') auto
next
  case (ok it ea fq pd)
  then show ?thesis by (simp add: make_plan_def)
qed

text \<open>
  C17: when the database does not connect, no request is sent: the run fails at once,
  launches no branch and logs the connection error.
\<close>

theorem generateFullTravelPlan_connect_first:
  "\<not> connect_ok e \<Longrightarrow>
   generateFullTravelPlan e input w =
     (Inl FullPlanFailed, w\<lparr>console := console w @ [LogPlanError DbConnectFailed]\<rparr>, [])"
  by (simp add: generateFullTravelPlan_unfold plan_failure_def)

text \<open>
  C9: when a branch rejects, the run fails with the reason of the first branch to reject
  in the order of settlement (\<^verbatim>\<open>Promise.all\<close>), whatever the other branches do.
\<close>

theorem generateFullTravelPlan_first_rejection:
  assumes "connect_ok e" and "settle_order e = pre @ i # post" and "i < 4"
    and "isl (branch_results e input ! i)"
    and "\<forall>j \<in> set pre. \<not> (j < 4 \<and> isl (branch_results e input ! j))"
  shows "generateFullTravelPlan e input w =
     (Inl FullPlanFailed,
      w\<lparr>console := console w @ [LogPlanError (BranchFailed (projl (branch_results e input ! i)))]\<rparr>,
      branch_traces e input)"
proof -
  have "promise_all (settle_order e) (branch_results e input) = Inl (projl (branch_results e input ! i))"
    using assms(2-5) by (intro promise_all_first_rejection) simp_all
  with assms(1) show ?thesis by (simp add: generateFullTravelPlan_unfold plan_failure_def)
qed

text \<open>
  C23: the read \<^verbatim>\<open>itinerary.days\<close> at line 166 never throws: the itinerary a branch
  fulfils with is always a non-null object, so no run fails on it.
\<close>

theorem itinerary_days_never_throws:
  assumes "generateFullTravelPlan e input w = (r, w', trs)"
  shows "console w' \<noteq> console w @ [LogPlanError DaysTypeError]"
  using assms
proof (cases rule: generateFullTravelPlan_cases)
  case (fail c)
  then have "console w' = console w @ [LogPlanError c]" by (cases w') auto
  with fail show ?thesis by simp
next
  case (ok it ea fq pd)
  then show ?thesis by simp
qed

lemma plans_inv_run:
  assumes "inj (uuid_source w)" and "plans_inv w" and "generateFullTravelPlan e input w = (r, w', trs)"
  shows "plans_inv w' \<and> uuid_source w' = uuid_source w"
  using assms(3)
proof (cases rule: generateFullTravelPlan_cases)
  case (fail c)
  then have "db w' = db w" "uuid_source w' = uuid_source w" "issued w \<le> issued w'" by (cases w'; auto)+
  with assms(2) show ?thesis by (auto simp: plans_inv_def)
next
  case (ok it ea fq pd)
  have fresh: "uuid_source w (issued w) \<notin> uuid_source w ` {..<issued w}"
    using assms(1) by (auto simp: inj_on_def)
  with ok assms(2) show ?thesis by (auto simp: plans_inv_def make_plan_def)
qed

lemma reachable_plans_inv:
  assumes "reachable src w" and "inj src"
  shows "plans_inv w \<and> uuid_source w = src"
  using assms(1)
proof (induction rule: reachable.induct)
  case start
  then show ?case by (simp add: plans_inv_def)
next
  case (run w e input r w' trs)
  with assms(2) plans_inv_run [of w e input r w' trs] show ?case by simp
qed

text \<open>
  C5: from an empty database and an injective source of identifiers, any sequence of runs
  (each with any input and any behaviour of the collaborators) stores plans with pairwise
  distinct identifiers.
\<close>

theorem reachable_distinct_uuids:
  assumes "inj src" and "reachable src w"
  shows "distinct (map uuid (db w))"
  using reachable_plans_inv [OF assms(2,1)] by (simp add: plans_inv_def)

lemma branch_results_objects:
  "branch_results e input = [Inr it, Inr ea, Inr fq, Inr pd] \<Longrightarrow> is_js_object ea \<and> is_js_object fq"
  by (auto simp: branch_results_def map_sum_def getBestEateries_def getFaqs_def
      split: sum.splits dest: fetchData_object)

text \<open>
  C12: every plan stored by any sequence of runs has JSON objects as its eateries and its FAQs.
\<close>

theorem reachable_plans_typed:
  assumes "reachable src w"
  shows "list_all plan_typed (db w)"
  using assms
proof (induction rule: reachable.induct)
  case start
  then show ?case by simp
next
  case (run w e input r w' trs)
  from run.hyps(2) show ?case
  proof (cases rule: generateFullTravelPlan_cases)
    case (fail c)
    then have "db w' = db w" by (cases w') auto
    with run.IH show ?thesis by simp
  next
    case (ok it ea fq pd)
    with run.IH branch_results_objects [OF ok(2)] show ?thesis
      by (simp add: plan_typed_def make_plan_def)
  qed
qed

lemma saved_ids_append [simp]: "saved_ids (xs @ ys) = saved_ids xs @ saved_ids ys"
  by (simp add: saved_ids_def)

lemma saved_ids_run:
  assumes "saved_ids (console w) = map uuid (db w)" and "generateFullTravelPlan e input w = (r, w', trs)"
  shows "saved_ids (console w') = map uuid (db w')"
  using assms(2)
proof (cases rule: generateFullTravelPlan_cases)
  case (fail c)
  then have "console w' = console w @ [LogPlanError c]" "db w' = db w" by (cases w'; auto)+
  with assms(1) show ?thesis by (simp add: saved_ids_def)
next
  case (ok it ea fq pd)
  with assms(1) show ?thesis by (simp add: saved_ids_def make_plan_def)
qed

text \<open>
  C13: in every world reached from an empty database, the console line
  \<^verbatim>\<open>Travel plan saved\<close> is logged once for each stored plan, with its identifier, in the
  order the plans were stored, and for no other identifier.
\<close>

theorem reachable_console_saved:
  assumes "reachable src w"
  shows "saved_ids (console w) = map uuid (db w)"
  using assms
proof (induction rule: reachable.induct)
  case start
  then show ?case by (simp add: saved_ids_def)
next
  case (run w e input r w' trs)
  show ?case by (rule saved_ids_run [OF run.IH run.hyps(2)])
qed

text \<open>
  C15: two consecutive runs that both succeed, with any inputs, store two plans under two
  different identifiers, after the plans stored before.
\<close>

theorem consecutive_runs_distinct:
  assumes "inj (uuid_source w)"
    and "generateFullTravelPlan e input w = (Inr u1, w1, t1)"
    and "generateFullTravelPlan e' input' w1 = (Inr u2, w2, t2)"
  shows "u1 \<noteq> u2 \<and> (\<exists>p1 p2. db w2 = db w @ [p1, p2] \<and> uuid p1 = u1 \<and> uuid p2 = u2)"
proof -
  from assms(2) have r1: "u1 = uuid_source w (issued w) \<and> uuid_source w1 = uuid_source w \<and>
      issued w1 = Suc (issued w) \<and> (\<exists>p. db w1 = db w @ [p] \<and> uuid p = u1)"
  proof (cases rule: generateFullTravelPlan_cases)
    case (ok it ea fq pd)
    then show ?thesis by simp
  qed simp
  from assms(3) have r2: "u2 = uuid_source w1 (issued w1) \<and> (\<exists>p. db w2 = db w1 @ [p] \<and> uuid p = u2)"
  proof (cases rule: generateFullTravelPlan_cases)
    case (ok it ea fq pd)
    then show ?thesis by simp
  qed simp
  from r1 r2 have "u2 = uuid_source w (Suc (issued w))" by simp
  with r1 assms(1) have "u1 \<noteq> u2" by (simp add: inj_eq)
  with r1 r2 show ?thesis by auto
qed

subsection \<open>The example run\<close>

lemma example_answer:
  "fetch_attempt (Response (choice_envelope (js ''{\"days\":[]}''))) = Inr (JObj [(js ''days'', JArr [])])"
proof -
  have "json_parse (js ''{\"days\":[]}'') = Inr (JObj [(js ''days'', JArr [])])" by code_simp
  then show ?thesis by (simp add: fetch_attempt_def attempt_result_envelope js_char_at_def)
qed

lemma example_branches:
  "branch_results example_env example_input =
     [Inr (JObj [(js ''days'', JArr [])]), Inr (JObj [(js ''days'', JArr [])]),
      Inr (JObj [(js ''days'', JArr [])]), Inr (JArr [])]"
  by (simp add: branch_results_def example_env_def generateItinerary_def getBestEateries_def
      getFaqs_def fetchData_unrolled example_answer [simplified] split_def)

text \<open>Every run of the example stores a plan, on any world.\<close>

lemma example_run:
  "generateFullTravelPlan example_env example_input w =
     (Inr (uuid_source w (issued w)),
      w\<lparr>issued := Suc (issued w),
        db := db w @ [make_plan (uuid_source w (issued w)) example_input (Some (JArr [])) (JObj [(js ''days'', JArr [])])
                        (JObj [(js ''days'', JArr [])]) (JArr [])],
        console := console w @ [LogSaved (uuid_source w (issued w))]\<rparr>,
      branch_traces example_env example_input)"
proof -
  have "connect_ok example_env" "create_ok example_env = (\<lambda>p. True)"
    by (simp_all add: example_env_def)
  then show ?thesis
    by (simp add: generateFullTravelPlan_unfold example_branches promise_all_def days_of_def
        Let_def del: js_Cons)
qed

lemma example_source_inj: "inj example_source"
  by (rule injI) (simp add: example_source_def)

lemma example_reachable:
  "reachable example_source (fst (snd (generateFullTravelPlan example_env example_input example_world)))"
proof -
  have start: "reachable example_source example_world"
    unfolding example_world_def by (rule reachable.start)
  obtain r w' trs where run: "generateFullTravelPlan example_env example_input example_world = (r, w', trs)"
    by (rule prod_cases3)
  from reachable.run [OF start run] show ?thesis unfolding run by simp
qed

theorem generateFullTravelPlan_all_or_nothing_witness:
  "case fst (generateFullTravelPlan example_env example_input example_world) of
     Inl err \<Rightarrow> err = FullPlanFailed \<and>
       db (fst (snd (generateFullTravelPlan example_env example_input example_world))) = db example_world \<and>
       (\<exists>c. console (fst (snd (generateFullTravelPlan example_env example_input example_world))) =
              console example_world @ [LogPlanError c])
   | Inr u \<Rightarrow>
       (\<exists>p. db (fst (snd (generateFullTravelPlan example_env example_input example_world))) =
              db example_world @ [p] \<and> uuid p = u) \<and>
       console (fst (snd (generateFullTravelPlan example_env example_input example_world))) =
         console example_world @ [LogSaved u]"
proof -
  obtain r w' trs where run: "generateFullTravelPlan example_env example_input example_world = (r, w', trs)"
    by (rule prod_cases3)
  from generateFullTravelPlan_all_or_nothing [OF run] show ?thesis unfolding run fst_conv snd_conv .
qed

theorem generateFullTravelPlan_connect_first_witness:
  "generateFullTravelPlan (example_env\<lparr>connect_ok := False\<rparr>) example_input example_world =
     (Inl FullPlanFailed, example_world\<lparr>console := [LogPlanError DbConnectFailed]\<rparr>, [])"
  using generateFullTravelPlan_connect_first [of "example_env\<lparr>connect_ok := False\<rparr>" example_input example_world]
  by (simp add: example_world_def)

theorem generateFullTravelPlan_first_rejection_witness:
  "generateFullTravelPlan (example_env\<lparr>popular := (\<lambda>d. Inl (js ''down'')), settle_order := [3, 0, 1, 2]\<rparr>)
      example_input example_world =
     (Inl FullPlanFailed, example_world\<lparr>console := [LogPlanError (BranchFailed (PopularFailed (js ''down'')))]\<rparr>,
      branch_traces (example_env\<lparr>popular := (\<lambda>d. Inl (js ''down'')), settle_order := [3, 0, 1, 2]\<rparr>) example_input)"
proof -
  let ?e = "example_env\<lparr>popular := (\<lambda>d. Inl (js ''down'')), settle_order := [3, 0, 1, 2]\<rparr>"
  have "branch_results ?e example_input ! 3 = Inl (PopularFailed (js ''down''))"
    by (simp add: branch_results_def)
  moreover have "generateFullTravelPlan ?e example_input example_world =
     (Inl FullPlanFailed,
      example_world\<lparr>console := console example_world @
         [LogPlanError (BranchFailed (projl (branch_results ?e example_input ! 3)))]\<rparr>,
      branch_traces ?e example_input)"
    by (rule generateFullTravelPlan_first_rejection [where pre = "[]" and post = "[0, 1, 2]"])
      (simp_all add: example_env_def branch_results_def)
  ultimately show ?thesis by (simp add: example_world_def)
qed

theorem itinerary_days_never_throws_witness:
  "console (fst (snd (generateFullTravelPlan example_env example_input example_world))) \<noteq>
     console example_world @ [LogPlanError DaysTypeError]"
proof -
  obtain r w' trs where run: "generateFullTravelPlan example_env example_input example_world = (r, w', trs)"
    by (rule prod_cases3)
  from itinerary_days_never_throws [OF run] show ?thesis unfolding run by simp
qed

theorem reachable_distinct_uuids_witness:
  "distinct (map uuid (db (fst (snd (generateFullTravelPlan example_env example_input example_world)))))"
  by (rule reachable_distinct_uuids [OF example_source_inj example_reachable])

theorem reachable_plans_typed_witness:
  "list_all plan_typed (db (fst (snd (generateFullTravelPlan example_env example_input example_world))))"
  by (rule reachable_plans_typed [OF example_reachable])

theorem consecutive_runs_distinct_witness:
  "[] \<noteq> [0x61 :: code_unit] \<and>
   (\<exists>p1 p2. db (fst (snd (generateFullTravelPlan example_env example_input
                  (fst (snd (generateFullTravelPlan example_env example_input example_world)))))) = [p1, p2] \<and>
      uuid p1 = [] \<and> uuid p2 = [0x61])"
proof -
  have "inj (uuid_source example_world)" by (simp add: example_world_def example_source_inj)
  from consecutive_runs_distinct [OF this example_run example_run]
  show ?thesis by (simp add: example_run example_world_def example_source_def)
qed

theorem reachable_console_saved_witness:
  "saved_ids (console (fst (snd (generateFullTravelPlan example_env example_input example_world)))) =
     map uuid (db (fst (snd (generateFullTravelPlan example_env example_input example_world))))"
  by (rule reachable_console_saved [OF example_reachable])

end
