(* ===== verification/Console.thy ===== *)
theory Console
  imports Orchestrator "HOL-Library.Sublist"
begin

text \<open>
  The console and the posts of one run of \<^verbatim>\<open>generateFullTravelPlan\<close> as they really
  interleave.  JavaScript runs one branch at a time and switches only at an \<^verbatim>\<open>await\<close>:
  a branch of \<^verbatim>\<open>fetchData\<close> runs from one \<^verbatim>\<open>await axios.post\<close> to the next, so its
  trace splits after each post into segments that run without interruption.
  \<^verbatim>\<open>Promise.all([...])\<close> calls the four functions in order, and each runs to its first
  \<^verbatim>\<open>await\<close> before the next is called; afterwards the answers of the provider decide which
  branch resumes.  A schedule lists the branch that runs each segment; a branch settles
  with its last segment, so the schedule also fixes the order in which the promises settle,
  which is the order \<^verbatim>\<open>Promise.all\<close> sees.  When a promise rejects, the \<^verbatim>\<open>catch\<close>
  block logs at once, while the other branches keep running: their later lines follow it.
  The lemmas show that every schedule starts with the launch in array order and that the
  schedule changes only the console, not the result of the run.
\<close>

subsection \<open>Segments between awaits\<close>

fun segs_acc :: "'e event list \<Rightarrow> 'e event list \<Rightarrow> 'e event list list" where
  "segs_acc cur [] = [cur]"
| "segs_acc cur (ev # evs) =
     (case ev of Post r \<Rightarrow> (cur @ [ev]) # segs_acc [] evs | _ \<Rightarrow> segs_acc (cur @ [ev]) evs)"

definition segments :: "'e event list \<Rightarrow> 'e event list list" where
  "segments t = segs_acc [] t"

subsection \<open>Schedules\<close>

text \<open>Running a schedule: each entry runs the next segment of its branch; the output is
  tagged with the branch.  An entry whose branch has no segment left runs nothing.\<close>

fun exec_schedule :: "'a list list list \<Rightarrow> nat list \<Rightarrow> (nat \<times> 'a) list \<times> 'a list list list" where
  "exec_schedule segs [] = ([], segs)"
| "exec_schedule segs (i # is) =
     (case (if i < length segs then segs ! i else []) of
        [] \<Rightarrow> exec_schedule segs is
      | s # rest \<Rightarrow>
          (let (out, segs') = exec_schedule (segs[i := rest]) is in (map (Pair i) s @ out, segs')))"

text \<open>A schedule of the run: the launch runs the first segment of every branch in order,
  and every branch runs each of its segments once.\<close>

definition valid_schedule :: "'a list list list \<Rightarrow> nat list \<Rightarrow> bool" where
  "valid_schedule segs sched \<longleftrightarrow>
     take (length segs) sched = [0..<length segs] \<and>
     list_all (\<lambda>j. count_list sched j = length (segs ! j)) [0..<length segs] \<and>
     list_all (\<lambda>j. j < length segs) sched"

text \<open>The order in which the branches settle: the order of their last segments.\<close>

fun settle_seq :: "nat list \<Rightarrow> nat list" where
  "settle_seq [] = []"
| "settle_seq (i # is) = (if i \<in> set is then settle_seq is else i # settle_seq is)"

text \<open>The schedule up to the last segment of branch \<open>i\<close>.\<close>

definition upto_last :: "nat list \<Rightarrow> nat \<Rightarrow> nat list" where
  "upto_last sched i = rev (dropWhile (\<lambda>j. j \<noteq> i) (rev sched))"

definition first_rejected :: "nat list \<Rightarrow> ('e + 'a) list \<Rightarrow> nat option" where
  "first_rejected order rs = find (\<lambda>i. i < length rs \<and> isl (rs ! i)) order"

subsection \<open>The concurrent run\<close>

text \<open>The segments of the four branches.  \<^verbatim>\<open>getPopularDestinations\<close> logs nothing the
  model knows of: it runs to its first \<^verbatim>\<open>await\<close> at the launch and settles in a second
  segment of its own, which a schedule may place anywhere after the launch.\<close>

definition branch_segments :: "run_env \<Rightarrow> TravelFormSchema \<Rightarrow> root_cause event list list list" where
  "branch_segments e input = map segments (branch_traces e input) @ [[[], []]]"

text \<open>The part of the schedule that runs before \<^verbatim>\<open>Promise.all\<close> settles: up to the last
  segment of the first branch to reject, or all of it.\<close>

definition console_split :: "run_env \<Rightarrow> TravelFormSchema \<Rightarrow> nat list \<Rightarrow> nat list" where
  "console_split e input sched =
     (case first_rejected (settle_seq sched) (branch_results e input) of
        Some i \<Rightarrow> upto_last sched i
      | None \<Rightarrow> sched)"

definition generateFullTravelPlan_concurrent ::
  "run_env \<Rightarrow> TravelFormSchema \<Rightarrow> world \<Rightarrow> nat list \<Rightarrow> (plan_error + uuid) \<times> world" where
  "generateFullTravelPlan_concurrent e input w sched =
     (let (r, w', trs) = generateFullTravelPlan (e\<lparr>settle_order := settle_seq sched\<rparr>) input w
      in if \<not> connect_ok e then (r, w')
         else
           (let pre = console_split e input sched;
                (out1, segs1) = exec_schedule (branch_segments e input) pre;
                out2 = fst (exec_schedule segs1 (drop (length pre) sched))
            in (r, w'\<lparr>console := console w @ map snd out1 @ drop (length (console w)) (console w') @
                                  map snd out2\<rparr>)))"

abbreviation prompt_request :: "run_env \<Rightarrow> json \<Rightarrow> post_request" where
  "prompt_request e d \<equiv> \<lparr>url = prompts_url, data = d, headers = api_headers (penv e)\<rparr>"

subsection \<open>Example schedules\<close>

text \<open>The example run of the orchestrator scheduled as the launch, then the popular
  destinations settling between the answers to the itinerary and to the eateries.\<close>

definition example_schedule :: "nat list" where
  "example_schedule = [0, 1, 2, 3, 0, 3, 1, 2]"

subsection \<open>Lemmas\<close>

lemma exec_schedule_append:
  "exec_schedule segs (xs @ ys) =
     (let (o1, s1) = exec_schedule segs xs; (o2, s2) = exec_schedule s1 ys in (o1 @ o2, s2))"
  by (induction segs xs rule: exec_schedule.induct) (auto simp: split_def Let_def split: list.split)

lemma upto_last_prefix: "upto_last sched i @ drop (length (upto_last sched i)) sched = sched"
proof -
  have "rev (dropWhile (\<lambda>j. j \<noteq> i) (rev sched)) @ rev (takeWhile (\<lambda>j. j \<noteq> i) (rev sched)) = sched"
    by (metis rev_append rev_rev_ident takeWhile_dropWhile_id)
  then show ?thesis unfolding upto_last_def by (metis append_eq_conv_conj)
qed

lemma console_split_prefix:
  "console_split e input sched @ drop (length (console_split e input sched)) sched = sched"
  by (simp add: console_split_def upto_last_prefix split: option.split)

lemma generateFullTravelPlan_one_line:
  "\<exists>x. console (fst (snd (generateFullTravelPlan e input w))) = console w @ [x]"
proof -
  obtain r w' trs where run: "generateFullTravelPlan e input w = (r, w', trs)" by (rule prod_cases3)
  from run have "\<exists>x. console w' = console w @ [x]"
  proof (cases rule: generateFullTravelPlan_cases)
    case (fail c)
    then show ?thesis by (cases w') auto
  qed simp
  with run show ?thesis by simp
qed

lemma concurrent_console:
  assumes "connect_ok e"
  obtains x out1 out2 where
    "fst (generateFullTravelPlan_concurrent e input w sched) =
       fst (generateFullTravelPlan (e\<lparr>settle_order := settle_seq sched\<rparr>) input w)"
    "console (snd (generateFullTravelPlan_concurrent e input w sched)) =
       console w @ map snd out1 @ [x] @ map snd out2"
    "out1 @ out2 = fst (exec_schedule (branch_segments e input) sched)"
    "out1 = fst (exec_schedule (branch_segments e input) (console_split e input sched))"
    "console (fst (snd (generateFullTravelPlan (e\<lparr>settle_order := settle_seq sched\<rparr>) input w))) = console w @ [x]"
proof -
  let ?e = "e\<lparr>settle_order := settle_seq sched\<rparr>"
  obtain r w' trs where run: "generateFullTravelPlan ?e input w = (r, w', trs)" by (rule prod_cases3)
  obtain x where x: "console w' = console w @ [x]"
    using generateFullTravelPlan_one_line [of ?e input w] run by auto
  let ?pre = "console_split e input sched"
  obtain out1 segs1 where e1: "exec_schedule (branch_segments e input) ?pre = (out1, segs1)"
    by (rule prod.exhaust)
  let ?out2 = "fst (exec_schedule segs1 (drop (length ?pre) sched))"
  have "out1 @ ?out2 = fst (exec_schedule (branch_segments e input) (?pre @ drop (length ?pre) sched))"
    by (simp add: exec_schedule_append e1 split_def Let_def)
  then have "out1 @ ?out2 = fst (exec_schedule (branch_segments e input) sched)"
    by (simp only: console_split_prefix)
  note app = this
  have c: "generateFullTravelPlan_concurrent e input w sched =
      (r, w'\<lparr>console := console w @ map snd out1 @ [x] @ map snd ?out2\<rparr>)"
    using assms run x e1 by (simp add: generateFullTravelPlan_concurrent_def Let_def split_def)
  show ?thesis
  proof (rule that [of out1 x ?out2])
    show "out1 = fst (exec_schedule (branch_segments e input) (console_split e input sched))"
      using e1 by simp
  qed (simp_all add: c run x app)
qed

lemma segs_acc_not_Nil: "segs_acc cur t \<noteq> []"
  by (induction cur t rule: segs_acc.induct) (simp_all split: event.split)

lemma fetchData_trace_start:
  "\<exists>rest. snd (fetchData net u d h) = LogAttempt 1 # Post \<lparr>url = u, data = d, headers = h\<rparr> # rest"
  by (auto simp: fetchData_unrolled failed_attempts_def upt_conv_Cons split: sum.split)

lemma branch_segments_start:
  obtains q0 q1 q2 where
    "branch_segments e input =
       [[LogInside, LogAttempt 1, Post (prompt_request e (itinerary_data input))] # q0,
        [LogAttempt 1, Post (prompt_request e (eateries_data input))] # q1,
        [LogAttempt 1, Post (prompt_request e (faqs_data input))] # q2, [[], []]]"
    "q0 \<noteq> []" "q1 \<noteq> []" "q2 \<noteq> []"
proof -
  obtain r0 :: "root_cause event list" where r0: "snd (fetchData (http e) prompts_url (itinerary_data input) (api_headers (penv e)) :: _ \<times> root_cause event list) =
      LogAttempt 1 # Post (prompt_request e (itinerary_data input)) # r0"
    using fetchData_trace_start by blast
  obtain r1 :: "root_cause event list" where r1: "snd (fetchData (http e) prompts_url (eateries_data input) (api_headers (penv e)) :: _ \<times> root_cause event list) =
      LogAttempt 1 # Post (prompt_request e (eateries_data input)) # r1"
    using fetchData_trace_start by blast
  obtain r2 :: "root_cause event list" where r2: "snd (fetchData (http e) prompts_url (faqs_data input) (api_headers (penv e)) :: _ \<times> root_cause event list) =
      LogAttempt 1 # Post (prompt_request e (faqs_data input)) # r2"
    using fetchData_trace_start by blast
  show ?thesis
    using that [of "segs_acc [] r0" "segs_acc [] r1" "segs_acc [] r2"] r0 r1 r2
    by (simp add: branch_segments_def branch_traces_def generateItinerary_def getBestEateries_def
        getFaqs_def segments_def split_def segs_acc_not_Nil)
qed

lemma upto_last_take:
  assumes "i \<in> set (drop n sched)"
  shows "take (Suc n) (upto_last sched i) = take (Suc n) sched"
proof -
  have "rev sched = rev (drop n sched) @ rev (take n sched)"
    by (metis append_take_drop_id rev_append)
  moreover have "i \<in> set (rev (drop n sched))" using assms by simp
  ultimately have "dropWhile (\<lambda>j. j \<noteq> i) (rev sched) =
      dropWhile (\<lambda>j. j \<noteq> i) (rev (drop n sched)) @ rev (take n sched)"
    by (simp add: dropWhile_append1)
  moreover have "dropWhile (\<lambda>j. j \<noteq> i) (rev (drop n sched)) \<noteq> []"
    using \<open>i \<in> set (rev (drop n sched))\<close> by (simp add: dropWhile_eq_Nil_conv)
  moreover have "n < length sched"
    using assms by (metis drop_eq_Nil2 empty_iff leI list.set(1))
  ultimately have "n < length (upto_last sched i)"
    by (simp add: upto_last_def)
  then show ?thesis
    by (metis upto_last_prefix take_append Suc_leI diff_is_0_eq take0 append_Nil2)
qed

lemma length_branch_segments [simp]: "length (branch_segments e input) = 4"
  by (simp add: branch_segments_def branch_traces_def)

lemma valid_schedule_counts:
  assumes "valid_schedule segs sched"
  shows "\<forall>j<length segs. count_list sched j = length (segs ! j)"
    and "list_all (\<lambda>j. j < length segs) sched"
    and "take (length segs) sched = [0..<length segs]"
  using assms by (auto simp: valid_schedule_def list_all_iff)

lemma first_rejected_Some: "first_rejected order rs = Some i \<Longrightarrow> i < length rs \<and> isl (rs ! i)"
  by (auto simp: first_rejected_def find_Some_iff)

lemma console_split_launch:
  assumes "take 4 sched = [0, 1, 2, 3]" and "\<forall>i<4. 2 \<le> count_list sched i"
  shows "take 4 (console_split e input sched) = [0, 1, 2, 3]"
proof (cases "first_rejected (settle_seq sched) (branch_results e input)")
  case None
  with assms(1) show ?thesis by (simp add: console_split_def)
next
  case (Some i)
  then have "i < 4" using first_rejected_Some by fastforce
  then have "i = 0 \<or> i = 1 \<or> i = 2 \<or> i = 3" by arith
  then have "count_list (take 4 sched) i = 1" using assms(1) by auto
  moreover have "count_list sched i = count_list (take 4 sched) i + count_list (drop 4 sched) i"
    by (simp only: count_list_append [symmetric] append_take_drop_id)
  moreover have "2 \<le> count_list sched i" using assms(2) \<open>i < 4\<close> by auto
  ultimately have "count_list (drop 4 sched) i \<noteq> 0" by arith
  then have "i \<in> set (drop 4 sched)" by (simp add: count_list_0_iff)
  moreover have "set (drop 4 sched) \<subseteq> set (drop 3 sched)" by (rule set_drop_subset_set_drop) simp
  ultimately have "i \<in> set (drop 3 sched)" by blast
  then have "take 4 (upto_last sched i) = take 4 sched"
    using upto_last_take [of i 3 sched] by simp
  with Some assms(1) show ?thesis by (simp add: console_split_def)
qed

text \<open>
  C16: under every schedule, a run's console starts with the launch: \<^verbatim>\<open>inside\<close>, then
  the first attempt and post of the itinerary, of the eateries and of the FAQs, in that order.
\<close>

theorem concurrent_launch_order:
  assumes "valid_schedule (branch_segments e input) sched" and "connect_ok e"
  shows "prefix [LogInside, LogAttempt 1, Post (prompt_request e (itinerary_data input)),
                 LogAttempt 1, Post (prompt_request e (eateries_data input)),
                 LogAttempt 1, Post (prompt_request e (faqs_data input))]
           (drop (length (console w)) (console (snd (generateFullTravelPlan_concurrent e input w sched))))"
proof -
  let ?segs = "branch_segments e input"
  let ?pre = "console_split e input sched"
  obtain q0 q1 q2 where segs:
    "?segs = [[LogInside, LogAttempt 1, Post (prompt_request e (itinerary_data input))] # q0,
              [LogAttempt 1, Post (prompt_request e (eateries_data input))] # q1,
              [LogAttempt 1, Post (prompt_request e (faqs_data input))] # q2, [[], []]]"
    and q: "q0 \<noteq> []" "q1 \<noteq> []" "q2 \<noteq> []"
    by (rule branch_segments_start)
  note v = valid_schedule_counts [OF assms(1)]
  have take4: "take 4 sched = [0, 1, 2, 3]" using v(3) by (simp add: upt_rec)
  have "\<forall>i<4. 2 \<le> count_list sched i"
  proof (intro allI impI)
    fix i :: nat assume "i < 4"
    then have "i = 0 \<or> i = 1 \<or> i = 2 \<or> i = 3" by arith
    with v(1) segs q show "2 \<le> count_list sched i"
      by (auto simp: Suc_le_eq length_greater_0_conv [symmetric] simp del: length_greater_0_conv)
  qed
  then have "take 4 ?pre = [0, 1, 2, 3]" using take4 by (rule console_split_launch [rotated])
  then have pre: "?pre = [0, 1, 2, 3] @ drop 4 ?pre" by (metis append_take_drop_id)
  obtain x out1 out2 where
    r: "fst (generateFullTravelPlan_concurrent e input w sched) =
          fst (generateFullTravelPlan (e\<lparr>settle_order := settle_seq sched\<rparr>) input w)"
    and c: "console (snd (generateFullTravelPlan_concurrent e input w sched)) =
          console w @ map snd out1 @ [x] @ map snd out2"
    and o: "out1 @ out2 = fst (exec_schedule (branch_segments e input) sched)"
    and o1: "out1 = fst (exec_schedule (branch_segments e input) (console_split e input sched))"
    and s: "console (fst (snd (generateFullTravelPlan (e\<lparr>settle_order := settle_seq sched\<rparr>) input w))) =
          console w @ [x]"
    by (rule concurrent_console [OF assms(2)])
  have "\<exists>more. map snd out1 =
      [LogInside, LogAttempt 1, Post (prompt_request e (itinerary_data input)),
       LogAttempt 1, Post (prompt_request e (eateries_data input)),
       LogAttempt 1, Post (prompt_request e (faqs_data input))] @ more"
    unfolding o1 by (subst pre) (simp add: exec_schedule_append segs split_def Let_def)
  then show ?thesis unfolding c by (auto simp: prefix_def)
qed

lemma branch_results_settle_order [simp]:
  "branch_results (e\<lparr>settle_order := ord\<rparr>) input = branch_results e input"
  by (simp add: branch_results_def)

lemma branch_traces_settle_order [simp]:
  "branch_traces (e\<lparr>settle_order := ord\<rparr>) input = branch_traces e input"
  by (simp add: branch_traces_def)

lemma promise_all_isl: "isl (promise_all order rs) \<longleftrightarrow> \<not> list_all (\<lambda>r. \<not> isl r) rs"
  by (simp add: promise_all_def)

lemma generateFullTravelPlan_settle_order:
  "fst (generateFullTravelPlan (e\<lparr>settle_order := ord1\<rparr>) input w) = fst (generateFullTravelPlan (e\<lparr>settle_order := ord2\<rparr>) input w) \<and>
   db (fst (snd (generateFullTravelPlan (e\<lparr>settle_order := ord1\<rparr>) input w))) =
     db (fst (snd (generateFullTravelPlan (e\<lparr>settle_order := ord2\<rparr>) input w))) \<and>
   issued (fst (snd (generateFullTravelPlan (e\<lparr>settle_order := ord1\<rparr>) input w))) =
     issued (fst (snd (generateFullTravelPlan (e\<lparr>settle_order := ord2\<rparr>) input w)))"
proof (cases "list_all (\<lambda>r. \<not> isl r) (branch_results e input)")
  case True
  then have "promise_all ord1 (branch_results e input) = promise_all ord2 (branch_results e input)"
    by (simp add: promise_all_def)
  then show ?thesis by (simp add: generateFullTravelPlan_unfold Let_def split: sum.split)
next
  case False
  then obtain c1 c2 where "promise_all ord1 (branch_results e input) = Inl c1"
      "promise_all ord2 (branch_results e input) = Inl c2"
    using promise_all_isl [of ord1 "branch_results e input"] promise_all_isl [of ord2 "branch_results e input"]
    by (auto simp: isl_def)
  then show ?thesis by (simp add: generateFullTravelPlan_unfold plan_failure_def)
qed

text \<open>
  C10: the interleaving of the branches decides only what the console shows: the value a
  run returns, the plans it stores and the identifiers it draws are the same under every
  schedule.
\<close>

theorem concurrent_schedule_independent:
  "fst (generateFullTravelPlan_concurrent e input w s1) = fst (generateFullTravelPlan_concurrent e input w s2) \<and>
   db (snd (generateFullTravelPlan_concurrent e input w s1)) = db (snd (generateFullTravelPlan_concurrent e input w s2)) \<and>
   issued (snd (generateFullTravelPlan_concurrent e input w s1)) =
     issued (snd (generateFullTravelPlan_concurrent e input w s2))"
  using generateFullTravelPlan_settle_order [of "settle_seq s1" e input w "settle_seq s2"]
  by (simp add: generateFullTravelPlan_concurrent_def split_def Let_def)

lemma example_traces:
  "branch_traces example_env example_input =
     [[LogInside, LogAttempt 1, Post (prompt_request example_env (itinerary_data example_input))],
      [LogAttempt 1, Post (prompt_request example_env (eateries_data example_input))],
      [LogAttempt 1, Post (prompt_request example_env (faqs_data example_input))]]"
proof -
  have "http example_env = (\<lambda>req k. Response (choice_envelope (js ''{\"days\":[]}'')))"
    by (simp add: example_env_def)
  then show ?thesis
    by (simp add: branch_traces_def generateItinerary_def getBestEateries_def getFaqs_def
        fetchData_unrolled example_answer [simplified] split_def)
qed

lemma example_schedule_valid: "valid_schedule (branch_segments example_env example_input) example_schedule"
  by (simp add: valid_schedule_def branch_segments_def example_traces segments_def example_schedule_def)

theorem concurrent_launch_order_witness:
  "prefix [LogInside, LogAttempt 1, Post (prompt_request example_env (itinerary_data example_input)),
           LogAttempt 1, Post (prompt_request example_env (eateries_data example_input)),
           LogAttempt 1, Post (prompt_request example_env (faqs_data example_input))]
     (drop (length (console example_world))
       (console (snd (generateFullTravelPlan_concurrent example_env example_input example_world example_schedule))))"
  by (rule concurrent_launch_order [OF example_schedule_valid]) (simp add: example_env_def)

end
