(* ===== verification/Spec2Isabelle.thy ===== *)
theory Spec2Isabelle
  imports Days Fetch Requests Orchestrator Console
begin

text \<open>
  \<^bold>\<open>A verified model of the travel-plan server actions of tourcraft\<close>
  (\<^verbatim>\<open>src/src/lib/actions/tripPlan.ts\<close>).

  \<^bold>\<open>The program.\<close>  One server action, \<^verbatim>\<open>generateFullTravelPlan\<close> (lines 145--181),
  connects to the database, runs four branches concurrently under \<^verbatim>\<open>Promise.all\<close>:
  \<^verbatim>\<open>generateItinerary\<close>, \<^verbatim>\<open>getBestEateries\<close>, \<^verbatim>\<open>getFaqs\<close> (lines 53--143) and
  the external \<^verbatim>\<open>getPopularDestinations\<close>; it then draws a \<^verbatim>\<open>uuidv4\<close>, assembles a
  plan and stores it with \<^verbatim>\<open>ItineraryModel.create\<close>.  The three request functions build
  a prompt payload from the form input (with \<^verbatim>\<open>getNumberOfDays\<close>, lines 10--15) and
  call the shared helper \<^verbatim>\<open>fetchData\<close> (lines 17--51), which posts to the provider up to
  three times, strips and sanitizes a fenced answer, parses it with \<^verbatim>\<open>JSON.parse\<close> and
  accepts only objects.

  \<^bold>\<open>Theories.\<close>
  \<^item> \<open>Prelude\<close>: strings as lists of UTF-16 code units (\<open>16 word list\<close>, literals through
    \<open>js\<close>), the collection \<open>js_simps\<close>, and \<open>bind_sum\<close> for results
    \<open>error + 'a\<close> (\<open>Inl\<close> is a thrown error).
  \<^item> \<open>Days\<close>: \<open>getNumberOfDays\<close> on \<^verbatim>\<open>Date.getTime()\<close> values (int milliseconds),
    with \<^verbatim>\<open>Math.round\<close> as \<open>js_math_round\<close> (\<open>\<lfloor>x + 1/2\<rfloor>\<close>).  The quotient is
    exact (rat), not a double: the two agree for differences below about 142,000 years, where
    the rounding error of the double quotient is smaller than the distance of the exact
    quotient from the nearest half-integer.
  \<^item> \<open>Json\<close>: the JSON values \<^verbatim>\<open>JSON.parse\<close> produces and a recursive-descent parser
    \<open>parse_value\<close> (ECMA-404, numbers exact), run by \<open>json_parse\<close> with fuel
    \<open>2 * length s + 1\<close>.  Each call either consumes input or descends once before
    consuming, so that fuel is enough (lemma \<open>parse_fuel\<close>): the parser never returns
    \<open>OutOfFuel\<close>, and \<open>json_parse\<close> is \<^verbatim>\<open>JSON.parse\<close> as a total function.
    A text without \<^verbatim>\<open>.\<close> and \<^verbatim>\<open>-\<close> parses to values whose numbers are natural
    numbers (\<open>nat_numbers\<close>, lemma \<open>json_parse_nat_numbers\<close>, by induction over the
    parser).
  \<^item> \<open>JsBuiltins\<close>: \<^verbatim>\<open>s[i]\<close>, \<^verbatim>\<open>substring\<close>, the sanitizer's character class and
    global replace, \<^verbatim>\<open>join\<close>, property reads with optional chaining, and \<^verbatim>\<open>String(v)\<close>.
  \<^item> \<open>Fetch\<close>: \<open>fetchData\<close> and its parts (\<open>read_content\<close> for line 28,
    \<open>sanitize_fenced\<close> for lines 30--32, \<open>parse_input\<close>, \<open>attempt_result\<close>,
    \<open>fetch_attempt\<close>, and the loop of lines 23--48 as \<open>fetch_loop\<close>, a \<open>function\<close>
    with measure \<open>3 - attempt\<close>).  \<^verbatim>\<open>axios.post\<close> is a network oracle: its outcome
    for a request at each attempt.  The console lines and the posts are the events of an
    ordered trace returned beside the result.
  \<^item> \<open>Requests\<close>: the form input \<open>TravelFormSchema\<close>, the three literal request bodies,
    the headers and the three request functions.
  \<^item> \<open>Orchestrator\<close>: \<open>generateFullTravelPlan\<close> over a \<open>world\<close> (stored plans in
    insertion order, the uuid source with the number drawn, the orchestrator's console) and
    a \<open>run_env\<close> of collaborators (network, configuration, whether \<^verbatim>\<open>dbConnect\<close> and
    \<^verbatim>\<open>create\<close> succeed, the popular-destinations answer, and the settlement order of the
    four promises, which decides the reason \<^verbatim>\<open>Promise.all\<close> rejects with).  Each branch
    keeps its own trace; the runs from an empty database are the inductive relation
    \<open>reachable\<close>.
  \<^item> \<open>Console\<close>: the same run with its branches interleaved.  A branch runs
    uninterrupted between two \<^verbatim>\<open>await\<close>s, so its trace splits after each post into
    \<open>segments\<close>; a schedule (\<open>valid_schedule\<close>: the launch in array order, then every
    segment once) runs them with \<open>exec_schedule\<close> and fixes the order in which the promises
    settle (\<open>settle_seq\<close>).  \<^verbatim>\<open>getPopularDestinations\<close> runs to its \<^verbatim>\<open>await\<close>
    at the launch and settles in a segment of its own, anywhere later.
    \<open>generateFullTravelPlan_concurrent\<close> takes the result
    and the stored plans of the sequential model under that settlement order and places
    the orchestrator's line where \<^verbatim>\<open>Promise.all\<close> settles: after the last segment
    of the first branch to reject, or after all of them.

  \<^bold>\<open>What is proved.\<close>
  \<^item> \<open>fetchData\<close> refines its contract \<open>retry_spec\<close> (first success of three tries, or
    the third error wrapped); its trace is \<open>retry_trace\<close>; it posts the same request one
    to three times; it succeeds exactly when one of its three tries would; the
    "Unexpected error" statement is dead; a valid unfenced object is returned at the first
    attempt; non-object answers and answers without content (a \<^verbatim>\<open>TypeError\<close> at
    \<^verbatim>\<open>response[0]\<close>) fail after three attempts.
  \<^item> the fence strip removes exactly 7 and 3 code units of contents of at least 10; the
    sanitizer deletes every \<^verbatim>\<open>.\<close> and \<^verbatim>\<open>-\<close>, so every number of a fenced answer
    that parses is a natural number (a fenced \<^verbatim>\<open>4.5\<close> is read as \<open>45\<close>).
  \<^item> a run succeeds exactly when the database connects, all branches fulfil and the plan is
    accepted; it is all or nothing (nothing stored on failure, one plan under the returned
    identifier on success); its failure reason is the first rejection in settlement order;
    a failed connection launches nothing; \<^verbatim>\<open>itinerary.days\<close> never throws; every
    reachable world stores pairwise distinct identifiers when the uuid source is injective,
    stores only plans whose eateries and FAQs are objects, and logs the saved line for
    exactly the stored plans, in order; two consecutive successful runs store two plans with
    different identifiers.
  \<^item> under every schedule, the console starts with the launch lines, and the schedule
    changes only the console, never the returned value, the stored plans or the identifiers
    drawn.
  \<^item> the day count is exact on whole days of 86400000 ms and rounds to the nearest day,
    halves upwards (exclusive of the start day, robust to DST hours, monotone); swapping
    the dates negates it except at odd half days, and an end before the start gives a
    negative count.
  \<^item> merging two adjacent interests with \<^verbatim>\<open>", "\<close> gives the three request functions the
    same body: the interests lose their list structure.

  \<^bold>\<open>Not modelled.\<close>  The HTTP library, the database driver and model (\<^verbatim>\<open>src/db\<close>),
  \<^verbatim>\<open>getPopularDestinations\<close> and \<^verbatim>\<open>uuid\<close> are outside the file: they are parameters
  of a run, not code; \<^verbatim>\<open>getPopularDestinations\<close> logs nothing the model knows of.
  \<^verbatim>\<open>JSON.stringify\<close>, which axios applies to the body, is a built-in: the model keeps
  the body as the JSON value the code builds.  Doubles are exact rationals, and an
  \<^verbatim>\<open>Invalid Date\<close> (NaN time) is not represented.  The form input is assumed to have
  the types of its schema.
\<close>

end
